theory Spec2Isabelle
  imports Complex_Main "HOL-Library.Word"
begin

section \<open>Degradation rate and BV/TV of segmented micro-CT stacks\<close>

text \<open>
  A shallow embedding of the functions of \<^verbatim>\<open>Code.ipynb\<close>: the voxel counter, the 3D
  and 2D contact counters, the ROI mask builder and the two ratio queries of the class
  \<^verbatim>\<open>Sample\<close>.

  Conventions.
  \<^item> A NumPy array is a nested list: a stack is a list of slices, a slice a list of rows,
    a row a list of voxels; index order is \<open>[z, y, x]\<close> as in the source. NumPy arrays are
    rectangular, which is the predicate \<open>has_shape3\<close>.
  \<^item> Voxel values and label codes are integers. NumPy stores them at a fixed width: where
    the source makes an \<^verbatim>\<open>int8\<close> array, writing a label code outside \<open>-128..127\<close> into
    it raises \<^verbatim>\<open>OverflowError\<close> (NumPy 2) and its addition wraps around. The dtype of the
    loaded target volume is the file's; a label code written into it is taken to fit.
  \<^item> Every Python exception is a value \<open>Inl e\<close> of the sum type \<open>error + 'a\<close>.
\<close>

subsection \<open>Exceptions\<close>

datatype error = ValueError | IndexError | KeyError | ZeroDivisionError | OverflowError

definition bind_r :: "error + 'a \<Rightarrow> ('a \<Rightarrow> error + 'b) \<Rightarrow> error + 'b" where
  "bind_r m f = (case m of Inl e \<Rightarrow> Inl e | Inr x \<Rightarrow> f x)"

subsection \<open>Arrays\<close>

type_synonym image2 = "int list list"
type_synonym image3 = "int list list list"

definition ravel2 :: "'a list list \<Rightarrow> 'a list" where
  "ravel2 a = concat a"

definition ravel3 :: "'a list list list \<Rightarrow> 'a list" where
  "ravel3 a = concat (concat a)"

definition has_shape2 :: "nat \<Rightarrow> nat \<Rightarrow> 'a list list \<Rightarrow> bool" where
  "has_shape2 Y X s = (length s = Y \<and> list_all (\<lambda>r. length r = X) s)"

definition has_shape3 :: "nat \<Rightarrow> nat \<Rightarrow> nat \<Rightarrow> 'a list list list \<Rightarrow> bool" where
  "has_shape3 Z Y X a = (length a = Z \<and> list_all (has_shape2 Y X) a)"

text \<open>\<^verbatim>\<open>image == label\<close>, \<^verbatim>\<open>np.logical_and\<close> and \<^verbatim>\<open>np.count_nonzero\<close>, elementwise.\<close>

definition equals2 :: "image2 \<Rightarrow> int \<Rightarrow> bool list list" where
  "equals2 a l = map (map (\<lambda>v. v = l)) a"

definition equals3 :: "image3 \<Rightarrow> int \<Rightarrow> bool list list list" where
  "equals3 a l = map (map (map (\<lambda>v. v = l))) a"

definition logical_and2 :: "bool list list \<Rightarrow> bool list list \<Rightarrow> bool list list" where
  "logical_and2 a b = map2 (map2 (\<and>)) a b"

definition logical_and3 ::
  "bool list list list \<Rightarrow> bool list list list \<Rightarrow> bool list list list" where
  "logical_and3 a b = map2 (map2 (map2 (\<and>))) a b"

definition count_nonzero2 :: "bool list list \<Rightarrow> nat" where
  "count_nonzero2 b = length (filter (\<lambda>v. v) (ravel2 b))"

definition count_nonzero3 :: "bool list list list \<Rightarrow> nat" where
  "count_nonzero3 b = length (filter (\<lambda>v. v) (ravel3 b))"

subsection \<open>The histogram of an integer image\<close>

text \<open>
  \<^verbatim>\<open>skimage.exposure.histogram(img)\<close> on an integer array flattens the image and
  returns the pair \<^verbatim>\<open>(hist, bin_centers)\<close> with
  \<^verbatim>\<open>bin_centers = arange(image.min(), image.max() + 1)\<close> and \<^verbatim>\<open>hist[i]\<close> the number
  of voxels equal to \<^verbatim>\<open>bin_centers[i]\<close> (a \<^verbatim>\<open>bincount\<close>): one bin for every integer
  between the smallest and the largest voxel value, occupied or not. The minimum of an
  array without elements raises \<^verbatim>\<open>ValueError\<close>.
\<close>

definition histogram :: "int list \<Rightarrow> error + (nat list \<times> int list)" where
  "histogram flat =
     (case flat of
        [] \<Rightarrow> Inl ValueError
      | v # vs \<Rightarrow>
          let image_min = fold min vs v;
              image_max = fold max vs v;
              bin_centers = [image_min..image_max]
          in Inr (map (count_list flat) bin_centers, bin_centers))"

subsection \<open>\<^verbatim>\<open>count_voxels_per_label\<close>\<close>

text \<open>\<^verbatim>\<open>np.where(a == v)[0]\<close>: the positions of \<open>v\<close> in \<open>a\<close>, ascending.\<close>

definition np_where_eq :: "int list \<Rightarrow> int \<Rightarrow> nat list" where
  "np_where_eq a v = filter (\<lambda>i. a ! i = v) [0..<length a]"

definition count_voxels_per_label :: "image3 \<Rightarrow> int \<Rightarrow> error + nat" where
  "count_voxels_per_label img label =
     bind_r (histogram (ravel3 img)) (\<lambda>hist.
       case np_where_eq (snd hist) label of
         [] \<Rightarrow> Inl IndexError
       | label_index # _ \<Rightarrow>
           let number_of_voxels = fst hist ! label_index
           in Inr number_of_voxels)"

subsection \<open>\<^verbatim>\<open>contact_area\<close> and \<^verbatim>\<open>contact_area_layer\<close>\<close>

text \<open>
  The basic slices: \<^verbatim>\<open>a[:-1]\<close> is \<open>butlast a\<close> and \<^verbatim>\<open>a[1:]\<close> is \<open>tl a\<close> (both
  empty on the empty list, as in Python), taken along the axis the colon pattern names.
\<close>

definition contact_area :: "image3 \<Rightarrow> int \<Rightarrow> int \<Rightarrow> error + nat" where
  "contact_area img label1 label2 =
     bind_r (histogram (ravel3 img)) (\<lambda>hist.
       if label1 \<notin> set (snd hist) \<or> label2 \<notin> set (snd hist) then Inl ValueError
       else
         let x_contact_1 = logical_and3 (equals3 (map (map butlast) img) label1)
                                        (equals3 (map (map tl) img) label2);
             x_contact_2 = logical_and3 (equals3 (map (map butlast) img) label2)
                                        (equals3 (map (map tl) img) label1);
             y_contact_1 = logical_and3 (equals3 (map butlast img) label1)
                                        (equals3 (map tl img) label2);
             y_contact_2 = logical_and3 (equals3 (map butlast img) label2)
                                        (equals3 (map tl img) label1);
             z_contact_1 = logical_and3 (equals3 (butlast img) label1)
                                        (equals3 (tl img) label2);
             z_contact_2 = logical_and3 (equals3 (butlast img) label2)
                                        (equals3 (tl img) label1);
             contact_voxels = count_nonzero3 x_contact_1 + count_nonzero3 x_contact_2
                            + count_nonzero3 y_contact_1 + count_nonzero3 y_contact_2
                            + count_nonzero3 z_contact_1 + count_nonzero3 z_contact_2
         in Inr contact_voxels)"

definition contact_area_layer :: "image2 \<Rightarrow> int \<Rightarrow> int \<Rightarrow> error + nat" where
  "contact_area_layer img label1 label2 =
     bind_r (histogram (ravel2 img)) (\<lambda>hist.
       if label1 \<notin> set (snd hist) \<or> label2 \<notin> set (snd hist) then Inl ValueError
       else
         let x_contact_1 = logical_and2 (equals2 (map butlast img) label1)
                                        (equals2 (map tl img) label2);
             x_contact_2 = logical_and2 (equals2 (map butlast img) label2)
                                        (equals2 (map tl img) label1);
             y_contact_1 = logical_and2 (equals2 (butlast img) label1)
                                        (equals2 (tl img) label2);
             y_contact_2 = logical_and2 (equals2 (butlast img) label2)
                                        (equals2 (tl img) label1);
             contact_voxels = count_nonzero2 x_contact_1 + count_nonzero2 x_contact_2
                            + count_nonzero2 y_contact_1 + count_nonzero2 y_contact_2
         in Inr contact_voxels)"

subsection \<open>\<^verbatim>\<open>filter_labels\<close>\<close>

text \<open>
  \<^verbatim>\<open>filtered_img\<close> is an \<^verbatim>\<open>int8\<close> array of zeros of the shape of the image. The loop
  over \<^verbatim>\<open>labels\<close> is a recursion over the list with \<^verbatim>\<open>filtered_img\<close> as its state. In
  each round \<^verbatim>\<open>selection\<close> is a copy of the image with every voxel other than
  \<^verbatim>\<open>label\<close> set to 0, and \<^verbatim>\<open>filtered_img[selection == label] = label\<close> converts the
  label to \<^verbatim>\<open>int8\<close>, which raises \<^verbatim>\<open>OverflowError\<close> for a code outside \<open>-128..127\<close>.
\<close>

definition int8_value :: "int \<Rightarrow> error + int" where
  "int8_value v = (if - 128 \<le> v \<and> v \<le> 127 then Inr v else Inl OverflowError)"

fun filter_labels_loop :: "image3 \<Rightarrow> int list \<Rightarrow> image3 \<Rightarrow> error + image3" where
  "filter_labels_loop img [] filtered_img = Inr filtered_img"
| "filter_labels_loop img (label # labels) filtered_img =
     bind_r (int8_value label) (\<lambda>l.
       filter_labels_loop img labels
         (map2 (map2 (map2 (\<lambda>v f.
            let selection = (if v = label then v else 0)
            in if selection = label then l else f))) img filtered_img))"

definition filter_labels :: "image3 \<Rightarrow> int list \<Rightarrow> error + image3" where
  "filter_labels img labels = filter_labels_loop img labels (map (map (map (\<lambda>_. 0))) img)"

subsection \<open>\<^verbatim>\<open>create_roi_mask\<close>\<close>

text \<open>
  A Python float is a binary64 number: a finite one is a rational, and a division can
  also give an infinity or a NaN.
\<close>

datatype pyfloat = Finite rat | PosInf | NegInf | NaN

text \<open>
  The arguments \<^verbatim>\<open>roi_size\<close> and \<^verbatim>\<open>pixel_size\<close> are rationals: a rational stands for the
  binary64 number nearest to it, which is itself if the argument is a float or an integer
  below \<open>2^53\<close>, and what Python reads a decimal literal as otherwise. \<open>to_binary64\<close> rounds
  to nearest, ties to even, on 53 significant bits with exponents from \<open>-1074\<close> (where the
  subnormal numbers start) up, and gives an infinity from \<open>2^1024\<close> on.
\<close>

definition round_half_even :: "rat \<Rightarrow> int" where
  "round_half_even q =
     (let f = \<lfloor>q\<rfloor>; d = q - of_int f
      in if d < 1 / 2 then f else if 1 / 2 < d then f + 1
         else if even f then f else f + 1)"

function bit_length :: "int \<Rightarrow> int" where
  "bit_length n = (if n \<le> 0 then 0 else 1 + bit_length (n div 2))"
  by pat_completeness auto
termination
  by (relation "measure nat") auto

definition pow2 :: "int \<Rightarrow> rat" where
  "pow2 k = (if 0 \<le> k then 2 ^ nat k else 1 / 2 ^ nat (- k))"

text \<open>For \<open>q > 0\<close>, the integer \<open>k\<close> with \<open>2^k \<le> q < 2^(k + 1)\<close>.\<close>

definition floor_log2 :: "rat \<Rightarrow> int" where
  "floor_log2 q =
     (case quotient_of q of (a, b) \<Rightarrow>
        let k = bit_length a - bit_length b
        in if pow2 k \<le> q then k else k - 1)"

definition to_binary64 :: "rat \<Rightarrow> pyfloat" where
  "to_binary64 q =
     (if q = 0 then Finite 0
      else let e = max (floor_log2 \<bar>q\<bar> - 52) (- 1074);
               m = round_half_even (\<bar>q\<bar> / pow2 e);
               v = of_int m * pow2 e
           in if pow2 1024 \<le> v then (if 0 < q then PosInf else NegInf)
              else Finite (sgn q * v))"

text \<open>
  Python's \<^verbatim>\<open>a / b\<close> on floats: \<^verbatim>\<open>ZeroDivisionError\<close> for a zero divisor, otherwise the
  exact quotient rounded to binary64.
\<close>

definition float_truediv :: "rat \<Rightarrow> rat \<Rightarrow> error + pyfloat" where
  "float_truediv a b =
     (case (to_binary64 a, to_binary64 b) of
        (x, Finite y) \<Rightarrow>
          if y = 0 then Inl ZeroDivisionError
          else (case x of
                  Finite x' \<Rightarrow> Inr (to_binary64 (x' / y))
                | PosInf \<Rightarrow> Inr (if 0 < y then PosInf else NegInf)
                | NegInf \<Rightarrow> Inr (if 0 < y then NegInf else PosInf)
                | NaN \<Rightarrow> Inr NaN)
      | (Finite x', _) \<Rightarrow> Inr (Finite 0)
      | (_, _) \<Rightarrow> Inr NaN)"

text \<open>
  Python's \<^verbatim>\<open>round\<close> of a float: the nearest integer, a tie going to the even one;
  \<^verbatim>\<open>OverflowError\<close> for an infinity and \<^verbatim>\<open>ValueError\<close> for a NaN.
\<close>

definition py_round :: "pyfloat \<Rightarrow> error + int" where
  "py_round x =
     (case x of
        Finite q \<Rightarrow> Inr (round_half_even q)
      | NaN \<Rightarrow> Inl ValueError
      | _ \<Rightarrow> Inl OverflowError)"

text \<open>\<^verbatim>\<open>xs[i]\<close> for a list and a constant index \<open>i \<ge> 0\<close>.\<close>

definition getitem :: "'a list \<Rightarrow> nat \<Rightarrow> error + 'a" where
  "getitem xs i = (if i < length xs then Inr (xs ! i) else Inl IndexError)"

text \<open>
  \<^verbatim>\<open>scipy.ndimage.distance_transform_edt(input)\<close> replaces every nonzero element of
  \<open>input\<close> by its Euclidean distance to the nearest zero element (the background), and
  leaves the zero elements at distance 0. The distance is the square root of an integer,
  the sum of the squared index differences; \<open>distance_transform_edt_sq\<close> is that integer.
  For an input without any zero element the documentation promises nothing: the
  implementation leaves its feature indices at their initial values, \<open>-1\<close> along the first
  axis and \<open>0\<close> along the second, and measures the distance to that position.
\<close>

definition sq_dist :: "nat \<times> nat \<Rightarrow> nat \<times> nat \<Rightarrow> nat" where
  "sq_dist p q =
     (let dy = (if fst p \<le> fst q then fst q - fst p else fst p - fst q);
          dx = (if snd p \<le> snd q then snd q - snd p else snd p - snd q)
      in dy * dy + dx * dx)"

definition indices2 :: "'a list list \<Rightarrow> (nat \<times> nat) list" where
  "indices2 a = concat (map (\<lambda>y. map (\<lambda>x. (y, x)) [0..<length (a ! y)]) [0..<length a])"

definition background_of :: "bool list list \<Rightarrow> (nat \<times> nat) list" where
  "background_of inp = filter (\<lambda>p. \<not> inp ! fst p ! snd p) (indices2 inp)"

definition distance_transform_edt_sq :: "bool list list \<Rightarrow> nat list list" where
  "distance_transform_edt_sq inp =
     (let bg = background_of inp
      in map (\<lambda>y. map (\<lambda>x.
                case bg of
                  [] \<Rightarrow> (y + 1) * (y + 1) + x * x
                | b # bs \<Rightarrow> fold min (map (sq_dist (y, x)) bs) (sq_dist (y, x) b))
              [0..<length (inp ! y)])
          [0..<length inp])"

text \<open>
  The distances are stored into \<^verbatim>\<open>distance_map\<close>, a \<^verbatim>\<open>uint16\<close> buffer: the float is
  truncated to an integer, \<open>floor_sqrt\<close> of the squared distance, and kept modulo \<open>2^16\<close>.
\<close>

primrec floor_sqrt :: "nat \<Rightarrow> nat" where
  "floor_sqrt 0 = 0"
| "floor_sqrt (Suc n) =
     (let r = floor_sqrt n in if (r + 1) * (r + 1) \<le> Suc n then r + 1 else r)"

definition to_uint16 :: "nat \<Rightarrow> 16 word" where
  "to_uint16 d2 = word_of_nat (floor_sqrt d2)"

text \<open>
  \<^verbatim>\<open>distance_map[:][:] = d\<close> broadcasts \<open>d\<close> to the shape \<open>(H, W)\<close> of the buffer: an
  axis of \<open>d\<close> must have the length of the buffer's axis or length 1, otherwise NumPy
  raises \<^verbatim>\<open>ValueError\<close>. A slice without rows fits a buffer without rows.
\<close>

definition shape2 :: "'a list list \<Rightarrow> nat \<times> nat" where
  "shape2 d = (length d, case d of [] \<Rightarrow> 0 | r # _ \<Rightarrow> length r)"

definition broadcast2 :: "nat \<Rightarrow> nat \<Rightarrow> 'a list list \<Rightarrow> error + 'a list list" where
  "broadcast2 H W d =
     (case shape2 d of (h, w) \<Rightarrow>
        if h = 0 then (if H = 0 then Inr [] else Inl ValueError)
        else if (h = H \<or> h = 1) \<and> (w = W \<or> w = 1)
        then Inr (map (\<lambda>y. map (\<lambda>x. d ! (if h = 1 then 0 else y) ! (if w = 1 then 0 else x))
                              [0..<W]) [0..<H])
        else Inl ValueError)"

text \<open>
  The loop \<^verbatim>\<open>for item in binary_mask\<close>: one boolean slice \<^verbatim>\<open>distance_map < mask_size\<close>
  is appended per reference slice; the first exception ends the loop.
\<close>

fun roi_mask_loop :: "nat \<Rightarrow> nat \<Rightarrow> int \<Rightarrow> bool list list list \<Rightarrow> error + bool list list list"
  where
  "roi_mask_loop H W mask_size [] = Inr []"
| "roi_mask_loop H W mask_size (item # rest) =
     bind_r (broadcast2 H W
               (map (map to_uint16) (distance_transform_edt_sq (map (map Not) item))))
       (\<lambda>distance_map.
          bind_r (roi_mask_loop H W mask_size rest) (\<lambda>roi_mask.
            Inr (map (map (\<lambda>d. uint d < mask_size)) distance_map # roi_mask)))"

text \<open>
  \<^verbatim>\<open>target_img[~mask] = v\<close>: a boolean index must have the shape of the array it
  indexes, otherwise NumPy raises \<^verbatim>\<open>IndexError\<close>; an index of size 0 (the mask of an
  empty reference stack) is accepted and selects nothing. The voxels where \<open>roi_mask\<close> is
  false are overwritten. In the source this assignment writes into the array the caller
  passed.
\<close>

definition assign_outside :: "image3 \<Rightarrow> bool list list list \<Rightarrow> int \<Rightarrow> error + image3" where
  "assign_outside target_img roi_mask v =
     (if roi_mask = [] then Inr target_img
      else if map (map length) target_img = map (map length) roi_mask
      then Inr (map2 (map2 (map2 (\<lambda>t keep. if keep then t else v))) target_img roi_mask)
      else Inl IndexError)"

definition create_roi_mask ::
  "image3 \<Rightarrow> image3 \<Rightarrow> rat \<Rightarrow> rat \<Rightarrow> int \<Rightarrow> nat list \<Rightarrow> error + image3" where
  "create_roi_mask ref_img target_img roi_size pixel_size mask_pixel_value img_size =
     (let binary_mask = map (map (map (\<lambda>v. 0 < v))) ref_img
      in bind_r (float_truediv roi_size pixel_size) (\<lambda>q.
         bind_r (py_round q) (\<lambda>mask_size.
         bind_r (getitem img_size 0) (\<lambda>H.
         bind_r (getitem img_size 1) (\<lambda>W.
         bind_r (roi_mask_loop H W mask_size binary_mask) (\<lambda>roi_mask.
           assign_outside target_img roi_mask mask_pixel_value))))))"

subsection \<open>The class \<^verbatim>\<open>Sample\<close>\<close>

text \<open>
  The fields the queries read (\<^verbatim>\<open>name\<close>, \<^verbatim>\<open>pixel_size\<close> and \<^verbatim>\<open>img_size\<close> carry the
  prefix \<open>sample_\<close>). \<^verbatim>\<open>ref_image\<close> and \<^verbatim>\<open>target_image\<close> hold the arrays loaded by
  the constructor. A query takes the object and returns its result together with
  the object as the call leaves it, since \<^verbatim>\<open>create_roi_mask\<close> writes into the array it
  is given.
\<close>

record Sample =
  sample_name :: string
  num_days :: int
  sample_pixel_size :: rat
  ref_image :: image3
  target_image :: image3
  label_dict :: "string \<rightharpoonup> int"
  sample_img_size :: "nat list"

definition dict_get :: "(string \<rightharpoonup> int) \<Rightarrow> string \<Rightarrow> error + int" where
  "dict_get d k = (case d k of None \<Rightarrow> Inl KeyError | Some v \<Rightarrow> Inr v)"

text \<open>
  The quotient of two voxel counts is the binary64 number nearest to the exact quotient.
  Python's \<^verbatim>\<open>int / int\<close> raises \<^verbatim>\<open>ZeroDivisionError\<close> at a zero divisor.
\<close>

definition int_truediv :: "nat \<Rightarrow> nat \<Rightarrow> error + pyfloat" where
  "int_truediv a b =
     (if b = 0 then Inl ZeroDivisionError else Inr (to_binary64 (of_nat a / of_nat b)))"

text \<open>
  NumPy's division of two integer scalars warns at a zero divisor and returns \<^verbatim>\<open>nan\<close> for
  \<open>0 / 0\<close> and \<^verbatim>\<open>inf\<close> for a positive numerator.
\<close>

definition np_true_divide :: "nat \<Rightarrow> nat \<Rightarrow> pyfloat" where
  "np_true_divide a b =
     (if b = 0 then (if a = 0 then NaN else PosInf) else to_binary64 (of_nat a / of_nat b))"

text \<open>
  The counts \<^verbatim>\<open>contact_area\<close> returns are sums of \<^verbatim>\<open>np.count_nonzero\<close> results: Python
  integers up to NumPy 2.2, NumPy integer scalars from NumPy 2.3 on. The source pins no
  version, so which of the two they are is a parameter of the query that divides them.
\<close>

definition count_truediv :: "bool \<Rightarrow> nat \<Rightarrow> nat \<Rightarrow> error + pyfloat" where
  "count_truediv scalar_counts a b =
     (if scalar_counts then Inr (np_true_divide a b) else int_truediv a b)"

text \<open>\<^verbatim>\<open>a[i]\<close> for an array and an integer: a negative index counts from the end.\<close>

definition np_getitem :: "'a list \<Rightarrow> int \<Rightarrow> error + 'a" where
  "np_getitem a i =
     (if 0 \<le> i \<and> i < int (length a) then Inr (a ! nat i)
      else if i < 0 \<and> - int (length a) \<le> i then Inr (a ! nat (int (length a) + i))
      else Inl IndexError)"

text \<open>\<^verbatim>\<open>int8\<close> addition wraps around.\<close>

definition int8_wrap :: "int \<Rightarrow> int" where
  "int8_wrap v = (v + 128) mod 256 - 128"

text \<open>
  In \<^verbatim>\<open>get_BIC_images\<close> a key of the label dictionary is looked up where the source
  first reads it; the dictionary does not change, so a later lookup of the same key gives
  the same code. The arrays given to \<^verbatim>\<open>create_roi_mask\<close> are the fresh \<^verbatim>\<open>int8\<close> arrays
  made by \<^verbatim>\<open>filter_labels\<close>, so the volumes of the object stay as they are; the last
  statement of \<^verbatim>\<open>create_roi_mask\<close> writes the background code into them, which raises
  \<^verbatim>\<open>OverflowError\<close> for a code outside \<open>-128..127\<close>.
\<close>

definition get_BIC_images :: "Sample \<Rightarrow> bool \<Rightarrow> error + (image3 \<times> image3)" where
  "get_BIC_images self use_roi =
     bind_r (dict_get (label_dict self) ''screw'') (\<lambda>l_screw.
     bind_r (dict_get (label_dict self) ''degradation_layer'') (\<lambda>l_degradation.
     bind_r (filter_labels (target_image self) [l_screw, l_degradation]) (\<lambda>screw0.
       let screw = map (map (map (\<lambda>v. if v = l_degradation then l_screw else v))) screw0
       in bind_r (dict_get (label_dict self) ''bone'') (\<lambda>l_bone.
          bind_r (filter_labels (target_image self) [l_bone]) (\<lambda>screw_bone0.
            let screw_bone = map2 (map2 (map2 (\<lambda>a b. int8_wrap (a + b)))) screw_bone0 screw
            in if use_roi then
                 bind_r (dict_get (label_dict self) ''background'') (\<lambda>l_background.
                 bind_r (create_roi_mask (ref_image self) screw 1000 (sample_pixel_size self)
                           l_background (sample_img_size self)) (\<lambda>screw_roi.
                 bind_r (int8_value l_background) (\<lambda>_.
                 bind_r (create_roi_mask (ref_image self) screw_bone 1000
                           (sample_pixel_size self) l_background (sample_img_size self))
                   (\<lambda>screw_bone_roi. Inr (screw_roi, screw_bone_roi)))))
               else Inr (screw, screw_bone))))))"

definition get_bone_to_implant_contact :: "bool \<Rightarrow> Sample \<Rightarrow> error + pyfloat" where
  "get_bone_to_implant_contact scalar_counts self =
     bind_r (get_BIC_images self True) (\<lambda>imgs.
     bind_r (dict_get (label_dict self) ''screw'') (\<lambda>l_screw.
     bind_r (dict_get (label_dict self) ''bone'') (\<lambda>l_bone.
     bind_r (contact_area (snd imgs) l_screw l_bone) (\<lambda>contact_implant_bone.
     bind_r (dict_get (label_dict self) ''screw'') (\<lambda>l_screw'.
     bind_r (dict_get (label_dict self) ''background'') (\<lambda>l_background.
     bind_r (contact_area (fst imgs) l_screw' l_background) (\<lambda>contact_background_implant.
       count_truediv scalar_counts contact_implant_bone contact_background_implant)))))))"

definition get_bone_volume_to_total_volume :: "Sample \<Rightarrow> rat \<Rightarrow> (error + pyfloat) \<times> Sample"
  where
  "get_bone_volume_to_total_volume self roi_size =
     (case dict_get (label_dict self) ''screw'' of
        Inl e \<Rightarrow> (Inl e, self)
      | Inr l_screw \<Rightarrow>
          (case create_roi_mask (ref_image self) (target_image self) roi_size
                  (sample_pixel_size self) l_screw (sample_img_size self) of
             Inl e \<Rightarrow> (Inl e, self)
           | Inr masked_stack \<Rightarrow>
               (bind_r (histogram (ravel3 masked_stack)) (\<lambda>hist.
                bind_r (dict_get (label_dict self) ''bone'') (\<lambda>l_bone.
                bind_r (np_getitem (fst hist) l_bone) (\<lambda>v_bone.
                bind_r (dict_get (label_dict self) ''background'') (\<lambda>l_background.
                bind_r (np_getitem (fst hist) l_background) (\<lambda>v_background.
                  let v_roi = v_bone + v_background
                  in Inr (np_true_divide v_bone v_roi)))))),
                self\<lparr>target_image := masked_stack\<rparr>)))"

text \<open>\<^verbatim>\<open>get_residual_volume\<close> without its unit factor: the voxel count it scales.\<close>

definition residual_voxels :: "Sample \<Rightarrow> error + nat" where
  "residual_voxels self =
     bind_r (dict_get (label_dict self) ''screw'') (\<lambda>l_screw.
       count_voxels_per_label (target_image self) l_screw)"

section \<open>The quantities the counters and the mask are specified by\<close>

subsection \<open>Adjacent voxel pairs\<close>

text \<open>
  A position is an index triple \<open>(z, y, x)\<close>. The forward neighbour of a position along
  an axis (0 for Z, 1 for Y, 2 for X) is one step further along that axis. A forward pair
  is a position together with an axis such that the position and its forward neighbour
  both lie within the bounds of the volume: no wrap-around, no padding.
\<close>

type_synonym pos = "nat \<times> nat \<times> nat"

definition vox :: "image3 \<Rightarrow> pos \<Rightarrow> int" where
  "vox V p = (case p of (z, y, x) \<Rightarrow> V ! z ! y ! x)"

definition inside :: "image3 \<Rightarrow> pos \<Rightarrow> bool" where
  "inside V p = (case p of (z, y, x) \<Rightarrow> z < length V \<and> y < length (V ! z) \<and> x < length (V ! z ! y))"

definition forward :: "nat \<Rightarrow> pos \<Rightarrow> pos" where
  "forward ax p =
     (case p of (z, y, x) \<Rightarrow>
        if ax = 0 then (Suc z, y, x) else if ax = 1 then (z, Suc y, x) else (z, y, Suc x))"

text \<open>The forward pairs whose first voxel carries \<open>a\<close> and whose forward neighbour carries \<open>b\<close>.\<close>

definition forward_pairs :: "image3 \<Rightarrow> int \<Rightarrow> int \<Rightarrow> nat" where
  "forward_pairs V a b =
     card {(ax, p). ax < 3 \<and> inside V p \<and> inside V (forward ax p)
                    \<and> vox V p = a \<and> vox V (forward ax p) = b}"

text \<open>
  Two positions are axis-adjacent when one is the forward neighbour of the other. The
  distinct adjacent pairs with both voxels labelled \<open>a\<close> are counted as unordered pairs.
\<close>

definition adjacent :: "pos \<Rightarrow> pos \<Rightarrow> bool" where
  "adjacent p q = (\<exists>ax<3. q = forward ax p \<or> p = forward ax q)"

definition same_label_pairs :: "image3 \<Rightarrow> int \<Rightarrow> nat" where
  "same_label_pairs V a =
     card {{p, q} | p q. inside V p \<and> inside V q \<and> adjacent p q \<and> vox V p = a \<and> vox V q = a}"

text \<open>
  The example volume: a \<open>5 \<times> 5 \<times> 5\<close> cube labelled 1 except for one full boundary face
  labelled 0, the face at the near or the far end of the given axis.
\<close>

definition face_cube :: "nat \<Rightarrow> bool \<Rightarrow> image3" where
  "face_cube ax far =
     map (\<lambda>z. map (\<lambda>y. map (\<lambda>x.
            if (if ax = 0 then z else if ax = 1 then y else x) = (if far then 4 else 0)
            then 0 else 1) [0..<5]) [0..<5]) [0..<5]"

subsection \<open>Distance to the reference within a slice\<close>

definition positive_voxels :: "image2 \<Rightarrow> (nat \<times> nat) set" where
  "positive_voxels s = {(y, x). y < length s \<and> x < length (s ! y) \<and> 0 < s ! y ! x}"

definition nonzero_voxels :: "image2 \<Rightarrow> (nat \<times> nat) set" where
  "nonzero_voxels s = {(y, x). y < length s \<and> x < length (s ! y) \<and> s ! y ! x \<noteq> 0}"

definition euclid :: "nat \<times> nat \<Rightarrow> nat \<times> nat \<Rightarrow> real" where
  "euclid p q = sqrt ((real (fst p) - real (fst q))\<^sup>2 + (real (snd p) - real (snd q))\<^sup>2)"

text \<open>The Euclidean distance from \<open>p\<close> to the nearest position of a finite nonempty set.\<close>

definition nearest_distance :: "(nat \<times> nat) set \<Rightarrow> nat \<times> nat \<Rightarrow> real" where
  "nearest_distance S p = Min (euclid p ` S)"

text \<open>
  A voxel \<open>(y, x)\<close> of a slice is in the region of interest of radius \<open>m\<close> (in voxels)
  when its distance to the nearest reference voxel with a value above 0 is strictly less
  than \<open>m\<close>.
\<close>

definition in_roi :: "image2 \<Rightarrow> int \<Rightarrow> nat \<Rightarrow> nat \<Rightarrow> bool" where
  "in_roi s m y x = (nearest_distance (positive_voxels s) (y, x) < real_of_int m)"

text \<open>
  The boolean slice that the loop of \<^verbatim>\<open>create_roi_mask\<close> appends for a reference slice.
\<close>

definition slice_roi_mask :: "int \<Rightarrow> image2 \<Rightarrow> bool list list" where
  "slice_roi_mask mask_size s =
     map (map (\<lambda>d. uint d < mask_size))
       (map (map to_uint16)
          (distance_transform_edt_sq (map (map Not) (map (map (\<lambda>v. 0 < v)) s))))"

text \<open>Two nested lists have the same shape: the same number of slices, rows and columns.\<close>

definition same_shape3 :: "'a list list list \<Rightarrow> 'b list list list \<Rightarrow> bool" where
  "same_shape3 T M = list_all2 (list_all2 (\<lambda>t m. length t = length m)) T M"

subsection \<open>Voxel counts and the BV/TV ratio\<close>

text \<open>
  The number of voxels of a volume that carry a label, and the ratio of the bone count to
  the sum of the bone and background counts, a rational number where that sum is not 0.
\<close>

definition label_count :: "image3 \<Rightarrow> int \<Rightarrow> nat" where
  "label_count V l = count_list (ravel3 V) l"

definition bv_tv_ratio :: "image3 \<Rightarrow> int \<Rightarrow> int \<Rightarrow> rat" where
  "bv_tv_ratio masked bone background =
     of_nat (label_count masked bone)
       / of_nat (label_count masked bone + label_count masked background)"

subsection \<open>Example samples\<close>

text \<open>The label dictionary of the docstring of \<^verbatim>\<open>Sample\<close>, with a code for the reference screw.\<close>

definition docstring_labels :: "string \<rightharpoonup> int" where
  "docstring_labels =
     [''background'' \<mapsto> 0, ''screw'' \<mapsto> 1, ''degradation_layer'' \<mapsto> 2, ''bone'' \<mapsto> 3,
      ''screw_ref'' \<mapsto> 4]"

text \<open>One slice of three voxels, the reference screw on the first two.\<close>

definition sample_row :: Sample where
  "sample_row =
     \<lparr>sample_name = ''row'', num_days = 28, sample_pixel_size = 1,
      ref_image = [[[4, 4, 0]]], target_image = [[[3, 0, 0]]],
      label_dict = docstring_labels, sample_img_size = [1, 3]\<rparr>"

text \<open>A dictionary with background code 2; the bone touches the screw, the background does not.\<close>

definition sample_no_contact :: Sample where
  "sample_no_contact =
     \<lparr>sample_name = ''no contact'', num_days = 28, sample_pixel_size = 1000,
      ref_image = [[[5, 5, 0]]], target_image = [[[1, 3, 3]]],
      label_dict = [''background'' \<mapsto> 2, ''screw'' \<mapsto> 1, ''degradation_layer'' \<mapsto> 4,
                    ''bone'' \<mapsto> 3, ''screw_ref'' \<mapsto> 5],
      sample_img_size = [1, 3]\<rparr>"

text \<open>A target without any bone or background voxel (background code 1, bone code 2).\<close>

definition sample_no_bone :: Sample where
  "sample_no_bone =
     \<lparr>sample_name = ''no bone'', num_days = 28, sample_pixel_size = 1,
      ref_image = [[[4, 4]]], target_image = [[[0, 3]]],
      label_dict = [''background'' \<mapsto> 1, ''screw'' \<mapsto> 0, ''degradation_layer'' \<mapsto> 3,
                    ''bone'' \<mapsto> 2, ''screw_ref'' \<mapsto> 4],
      sample_img_size = [1, 2]\<rparr>"

text \<open>A target without bone voxels under the docstring's codes, where bone has the largest.\<close>

definition sample_bone_absent :: Sample where
  "sample_bone_absent =
     \<lparr>sample_name = ''bone absent'', num_days = 28, sample_pixel_size = 1,
      ref_image = [[[4, 4, 4]]], target_image = [[[0, 1, 1]]],
      label_dict = docstring_labels, sample_img_size = [1, 3]\<rparr>"

text \<open>A target without background voxels: its smallest voxel value is 1 (bone code 2).\<close>

definition sample_offset :: Sample where
  "sample_offset =
     \<lparr>sample_name = ''offset'', num_days = 28, sample_pixel_size = 1,
      ref_image = [[[4, 4, 4, 4]]], target_image = [[[1, 2, 2, 3]]],
      label_dict = [''background'' \<mapsto> 0, ''screw'' \<mapsto> 1, ''degradation_layer'' \<mapsto> 3,
                    ''bone'' \<mapsto> 2, ''screw_ref'' \<mapsto> 4],
      sample_img_size = [1, 4]\<rparr>"

section \<open>Counting in nested lists\<close>

lemma length_filter_concat:
  "length (filter P (concat xss)) = (\<Sum>i<length xss. length (filter P (xss ! i)))"
proof (induction xss rule: rev_induct)
  case Nil
  then show ?case by simp
next
  case (snoc xs xss)
  then show ?case by (simp add: nth_append)
qed

lemma filter_concat_concat:
  "length (filter P (concat (concat B))) =
     (\<Sum>z<length B. \<Sum>y<length (B ! z). length (filter P (B ! z ! y)))"
proof (induction B rule: rev_induct)
  case Nil
  then show ?case by simp
next
  case (snoc s B)
  then show ?case by (simp add: nth_append length_filter_concat)
qed

lemma card_box3:
  fixes Z Y X :: nat
  shows "card {(z, y, x). z < Z \<and> y < Y \<and> x < X \<and> P z y x} =
     (\<Sum>z<Z. \<Sum>y<Y. card {x. x < X \<and> P z y x})"
proof -
  have eq: "{(z, y, x). z < Z \<and> y < Y \<and> x < X \<and> P z y x} =
        (SIGMA z:{..<Z}. SIGMA y:{..<Y}. {x. x < X \<and> P z y x})"
    by auto
  have fin: "finite (SIGMA y:{..<Y}. {x. x < X \<and> P z y x})" for z
    by (intro finite_SigmaI) simp_all
  have inner: "card (SIGMA y:{..<Y}. {x. x < X \<and> P z y x}) = (\<Sum>y<Y. card {x. x < X \<and> P z y x})"
    for z
    by (subst card_SigmaI) simp_all
  have "card (SIGMA z:{..<Z}. SIGMA y:{..<Y}. {x. x < X \<and> P z y x}) =
        (\<Sum>z<Z. card (SIGMA y:{..<Y}. {x. x < X \<and> P z y x}))"
    by (subst card_SigmaI) (simp_all add: fin)
  then show ?thesis unfolding eq by (simp only: inner)
qed

lemma count_nonzero3_card:
  assumes len: "length B = Z"
    and rows: "\<And>z. z < Z \<Longrightarrow> length (B ! z) = Y"
    and cols: "\<And>z y. z < Z \<Longrightarrow> y < Y \<Longrightarrow> length (B ! z ! y) = X"
    and val: "\<And>z y x. z < Z \<Longrightarrow> y < Y \<Longrightarrow> x < X \<Longrightarrow> B ! z ! y ! x = P z y x"
  shows "count_nonzero3 B = card {(z, y, x). z < Z \<and> y < Y \<and> x < X \<and> P z y x}"
proof -
  have row: "length (filter (\<lambda>v. v) (B ! z ! y)) = card {x. x < X \<and> P z y x}"
    if "z < Z" "y < Y" for z y
  proof -
    have "{i. i < length (B ! z ! y) \<and> B ! z ! y ! i} = {x. x < X \<and> P z y x}"
      using that cols val by auto
    then show ?thesis by (simp add: length_filter_conv_card)
  qed
  have "count_nonzero3 B = (\<Sum>z<Z. \<Sum>y<length (B ! z). length (filter (\<lambda>v. v) (B ! z ! y)))"
    by (simp add: count_nonzero3_def ravel3_def filter_concat_concat len)
  also have "\<dots> = (\<Sum>z<Z. \<Sum>y<Y. card {x. x < X \<and> P z y x})"
    by (intro sum.cong refl) (simp_all add: rows row)
  finally show ?thesis by (simp only: card_box3)
qed

section \<open>The contact counter counts forward pairs\<close>

lemma has_shape3_nth:
  assumes "has_shape3 Z Y X V"
  shows "length V = Z" and "\<And>z. z < Z \<Longrightarrow> length (V ! z) = Y"
    and "\<And>z y. z < Z \<Longrightarrow> y < Y \<Longrightarrow> length (V ! z ! y) = X"
  using assms by (auto simp: has_shape3_def has_shape2_def list_all_length)

lemma inside_shape:
  "has_shape3 Z Y X V \<Longrightarrow> inside V (z, y, x) \<longleftrightarrow> z < Z \<and> y < Y \<and> x < X"
  by (auto simp: inside_def has_shape3_nth)

lemma x_contact_card:
  assumes V: "has_shape3 Z Y X V"
  shows "count_nonzero3 (logical_and3 (equals3 (map (map butlast) V) a) (equals3 (map (map tl) V) b))
       = card {(z, y, x). z < Z \<and> y < Y \<and> x < X - 1 \<and> V ! z ! y ! x = a \<and> V ! z ! y ! Suc x = b}"
proof -
  have eq: "logical_and3 (equals3 (map (map butlast) V) a) (equals3 (map (map tl) V) b)
    = map (map (\<lambda>r. map2 (\<and>) (map (\<lambda>v. v = a) (butlast r)) (map (\<lambda>v. v = b) (tl r)))) V"
    by (simp add: logical_and3_def equals3_def map2_map_map)
  show ?thesis unfolding eq
    by (rule count_nonzero3_card)
       (simp_all add: has_shape3_nth [OF V] nth_butlast nth_tl)
qed

lemma y_contact_card:
  assumes V: "has_shape3 Z Y X V"
  shows "count_nonzero3 (logical_and3 (equals3 (map butlast V) a) (equals3 (map tl V) b))
       = card {(z, y, x). z < Z \<and> y < Y - 1 \<and> x < X \<and> V ! z ! y ! x = a \<and> V ! z ! Suc y ! x = b}"
proof -
  have eq: "logical_and3 (equals3 (map butlast V) a) (equals3 (map tl V) b)
    = map (\<lambda>s. map2 (map2 (\<and>)) (map (map (\<lambda>v. v = a)) (butlast s))
                                   (map (map (\<lambda>v. v = b)) (tl s))) V"
    by (simp add: logical_and3_def equals3_def map2_map_map)
  show ?thesis unfolding eq
    by (rule count_nonzero3_card)
       (simp_all add: has_shape3_nth [OF V] nth_butlast nth_tl)
qed

lemma z_contact_card:
  assumes V: "has_shape3 Z Y X V"
  shows "count_nonzero3 (logical_and3 (equals3 (butlast V) a) (equals3 (tl V) b))
       = card {(z, y, x). z < Z - 1 \<and> y < Y \<and> x < X \<and> V ! z ! y ! x = a \<and> V ! Suc z ! y ! x = b}"
  unfolding logical_and3_def equals3_def
  by (rule count_nonzero3_card)
     (simp_all add: has_shape3_nth [OF V] nth_butlast nth_tl)

lemma finite_box3:
  fixes Z Y X :: nat
  shows "finite {(z, y, x). z < Z \<and> y < Y \<and> x < X \<and> P z y x}"
proof -
  have "{(z, y, x). z < Z \<and> y < Y \<and> x < X \<and> P z y x} \<subseteq> {..<Z} \<times> {..<Y} \<times> {..<X}"
    by auto
  then show ?thesis by (rule finite_subset) simp
qed

lemma forward_pairs_axes:
  assumes V: "has_shape3 Z Y X V"
  shows "forward_pairs V a b =
      card {(z, y, x). z < Z \<and> y < Y \<and> x < X - 1 \<and> V ! z ! y ! x = a \<and> V ! z ! y ! Suc x = b}
    + card {(z, y, x). z < Z \<and> y < Y - 1 \<and> x < X \<and> V ! z ! y ! x = a \<and> V ! z ! Suc y ! x = b}
    + card {(z, y, x). z < Z - 1 \<and> y < Y \<and> x < X \<and> V ! z ! y ! x = a \<and> V ! Suc z ! y ! x = b}"
    (is "_ = card ?Ax + card ?Ay + card ?Az")
proof -
  let ?S = "{(ax, p). ax < 3 \<and> inside V p \<and> inside V (forward ax p)
                    \<and> vox V p = a \<and> vox V (forward ax p) = b}"
  have ax3: "ax < 3 \<longleftrightarrow> ax = 0 \<or> ax = 1 \<or> ax = 2" for ax :: nat
    by auto
  have S: "?S = Pair 2 ` ?Ax \<union> (Pair 1 ` ?Ay \<union> Pair 0 ` ?Az)"
    by (auto simp: ax3 inside_shape [OF V] forward_def vox_def image_iff)
  have fin: "finite ?Ax" "finite ?Ay" "finite ?Az"
    by (rule finite_box3)+
  have disj: "Pair (2::nat) ` ?Ax \<inter> (Pair 1 ` ?Ay \<union> Pair 0 ` ?Az) = {}"
    "Pair (1::nat) ` ?Ay \<inter> Pair 0 ` ?Az = {}"
    by auto
  have "card ?S = card (Pair (2::nat) ` ?Ax) + (card (Pair (1::nat) ` ?Ay) + card (Pair (0::nat) ` ?Az))"
    unfolding S using fin disj
    by (simp add: card_Un_disjoint)
  also have "\<dots> = card ?Ax + card ?Ay + card ?Az"
    by (simp add: card_image inj_on_def)
  finally show ?thesis by (simp add: forward_pairs_def)
qed

lemma histogram_centers:
  "histogram (v # vs) = Inr (hist, centers) \<Longrightarrow>
     set centers = {Min (set (v # vs))..Max (set (v # vs))}"
proof -
  assume h: "histogram (v # vs) = Inr (hist, centers)"
  have mn: "fold min vs v = Min (set (v # vs))" by (rule Min.set_eq_fold [symmetric])
  have mx: "fold max vs v = Max (set (v # vs))" by (rule Max.set_eq_fold [symmetric])
  from h have "centers = [fold min vs v..fold max vs v]"
    by (simp add: histogram_def Let_def)
  then show ?thesis unfolding mn mx by simp
qed

lemma present_in_centers:
  assumes "histogram flat = Inr h" "l \<in> set flat"
  shows "l \<in> set (snd h)"
proof -
  from assms obtain v vs where flat: "flat = v # vs" by (cases flat) auto
  obtain hist centers where h: "h = (hist, centers)" by (cases h)
  have "Min (set flat) \<le> l" "l \<le> Max (set flat)" using assms(2) by simp_all
  then show ?thesis using histogram_centers [of v vs hist centers] assms(1) flat h by simp
qed

lemma histogram_nonempty: "flat \<noteq> [] \<Longrightarrow> \<exists>h. histogram flat = Inr h"
  by (cases flat) (simp_all add: histogram_def Let_def)

lemma contact_area_present:
  assumes V: "has_shape3 Z Y X V" and a: "a \<in> set (ravel3 V)" and b: "b \<in> set (ravel3 V)"
  shows "contact_area V a b = Inr (forward_pairs V a b + forward_pairs V b a)"
proof -
  from a have "ravel3 V \<noteq> []" by auto
  then obtain h where h: "histogram (ravel3 V) = Inr h" using histogram_nonempty by blast
  have ok: "a \<in> set (snd h)" "b \<in> set (snd h)"
    using present_in_centers [OF h] a b by simp_all
  show ?thesis
    unfolding contact_area_def Let_def
    by (simp add: h bind_r_def ok x_contact_card [OF V] y_contact_card [OF V]
        z_contact_card [OF V] forward_pairs_axes [OF V])
qed

lemma forward_inj:
  assumes "ax < 3" "ax' < 3" "{p, forward ax p} = {p', forward ax' p'}"
  shows "ax = ax' \<and> p = p'"
proof -
  obtain z y x where p: "p = (z, y, x)" by (cases p)
  obtain z' y' x' where p': "p' = (z', y', x')" by (cases p')
  from assms(3) have "(p = p' \<and> forward ax p = forward ax' p')
       \<or> (p = forward ax' p' \<and> forward ax p = p')"
    by (auto simp: doubleton_eq_iff)
  then show ?thesis
    using assms(1,2) unfolding p p' forward_def
    by (auto split: if_splits)
qed

lemma same_label_pairs_forward: "same_label_pairs V a = forward_pairs V a a"
proof -
  let ?F = "{(ax, p). ax < 3 \<and> inside V p \<and> inside V (forward ax p)
                    \<and> vox V p = a \<and> vox V (forward ax p) = a}"
  let ?U = "{{p, q} | p q. inside V p \<and> inside V q \<and> adjacent p q \<and> vox V p = a \<and> vox V q = a}"
  let ?f = "\<lambda>(ax, p). {p, forward ax p}"
  have "?U = ?f ` ?F"
  proof (intro equalityI subsetI)
    fix s assume "s \<in> ?U"
    then obtain p q where s: "s = {p, q}" and in_p: "inside V p" and in_q: "inside V q"
      and adj: "adjacent p q" and vp: "vox V p = a" and vq: "vox V q = a"
      by blast
    from adj obtain ax where ax: "ax < 3" and dir: "q = forward ax p \<or> p = forward ax q"
      by (auto simp: adjacent_def)
    from dir show "s \<in> ?f ` ?F"
    proof (elim disjE)
      assume "q = forward ax p"
      then have "(ax, p) \<in> ?F" "s = ?f (ax, p)" using s in_p in_q vp vq ax by auto
      then show ?thesis by blast
    next
      assume "p = forward ax q"
      then have "(ax, q) \<in> ?F" "s = ?f (ax, q)" using s in_p in_q vp vq ax by auto
      then show ?thesis by blast
    qed
  next
    fix s assume "s \<in> ?f ` ?F"
    then obtain ax p where "s = {p, forward ax p}" "ax < 3" "inside V p"
      "inside V (forward ax p)" "vox V p = a" "vox V (forward ax p) = a"
      by auto
    then show "s \<in> ?U" unfolding adjacent_def by blast
  qed
  moreover have "inj_on ?f ?F"
    by (rule inj_onI) (auto dest: forward_inj)
  ultimately show ?thesis
    by (simp add: same_label_pairs_def forward_pairs_def card_image)
qed

lemma face_cube_contacts:
  "contact_area (face_cube 0 False) 0 1 = Inr 25"
  "contact_area (face_cube 0 True) 0 1 = Inr 25"
  "contact_area (face_cube 1 False) 0 1 = Inr 25"
  "contact_area (face_cube 1 True) 0 1 = Inr 25"
  "contact_area (face_cube 2 False) 0 1 = Inr 25"
  "contact_area (face_cube 2 True) 0 1 = Inr 25"
  by code_simp+

text \<open>
  C1. For a volume of shape \<open>(Z, Y, X)\<close> and labels \<open>a\<close>, \<open>b\<close> that both occur in it,
  \<open>contact_area\<close> returns the number of forward pairs (a position and its within-bounds
  forward neighbour along +X, +Y or +Z) carrying \<open>a\<close> then \<open>b\<close>, plus the number carrying
  \<open>b\<close> then \<open>a\<close>. For the \<open>5 \<times> 5 \<times> 5\<close> cube labelled 1 with one full boundary face
  labelled 0, whichever of the six faces it is, the contact of 0 and 1 is 25.
\<close>

theorem contact_area_counts_forward_pairs:
  "(has_shape3 Z Y X V \<and> a \<in> set (ravel3 V) \<and> b \<in> set (ravel3 V) \<longrightarrow>
      contact_area V a b = Inr (forward_pairs V a b + forward_pairs V b a))
   \<and> (ax < 3 \<longrightarrow> contact_area (face_cube ax far) 0 1 = Inr 25)"
proof (intro conjI impI)
  assume "has_shape3 Z Y X V \<and> a \<in> set (ravel3 V) \<and> b \<in> set (ravel3 V)"
  then show "contact_area V a b = Inr (forward_pairs V a b + forward_pairs V b a)"
    using contact_area_present by blast
next
  assume "ax < 3"
  then have "ax = 0 \<or> ax = 1 \<or> ax = 2" by auto
  then show "contact_area (face_cube ax far) 0 1 = Inr 25"
    using face_cube_contacts by (cases far) (elim disjE; simp only:)+
qed

theorem contact_area_counts_forward_pairs_witness:
  "has_shape3 1 2 2 [[[0, 1], [1, 1 :: int]]]
   \<and> forward_pairs [[[0, 1], [1, 1]]] 0 1 + forward_pairs [[[0, 1], [1, 1]]] 1 0 = 2
   \<and> contact_area (face_cube 2 True) 0 1 = Inr 25"
proof -
  have shape: "has_shape3 1 2 2 [[[0, 1], [1, 1 :: int]]]"
    by (simp add: has_shape3_def has_shape2_def)
  have present: "0 \<in> set (ravel3 [[[0, 1], [1, 1 :: int]]])" "1 \<in> set (ravel3 [[[0, 1], [1, 1 :: int]]])"
    by (simp_all add: ravel3_def)
  have run: "contact_area [[[0, 1], [1, 1]]] 0 1 = Inr 2"
    by code_simp
  show ?thesis
    using contact_area_counts_forward_pairs [of 1 2 2 "[[[0, 1], [1, 1]]]" 0 1 2 True]
      shape present run
    by simp
qed

text \<open>
  C10. For a volume and a label \<open>a\<close> that occurs in it, \<open>contact_area\<close> with both label
  arguments equal to \<open>a\<close> returns twice the number of distinct axis-adjacent voxel pairs
  with both voxels labelled \<open>a\<close>: the two label orders coincide, and each pair is counted
  once in each.
\<close>

theorem contact_area_same_label_twice:
  "has_shape3 Z Y X V \<Longrightarrow> a \<in> set (ravel3 V) \<Longrightarrow>
     contact_area V a a = Inr (2 * same_label_pairs V a)"
  by (simp add: contact_area_present same_label_pairs_forward)

theorem contact_area_same_label_twice_witness:
  "has_shape3 1 2 2 [[[1, 1], [1, 0 :: int]]] \<and> 1 \<in> set (ravel3 [[[1, 1], [1, 0 :: int]]])
   \<and> same_label_pairs [[[1, 1], [1, 0]]] 1 = 2"
proof -
  have shape: "has_shape3 1 2 2 [[[1, 1], [1, 0 :: int]]]"
    by (simp add: has_shape3_def has_shape2_def)
  have present: "1 \<in> set (ravel3 [[[1, 1], [1, 0 :: int]]])"
    by (simp add: ravel3_def)
  have run: "contact_area [[[1, 1], [1, 0]]] 1 1 = Inr 4"
    by code_simp
  show ?thesis
    using contact_area_same_label_twice [OF shape present] shape present run
    by simp
qed

section \<open>The ROI mask\<close>

subsection \<open>Masking twice\<close>

lemma map2_idem:
  assumes "list_all2 P xs ys" and "\<And>x y. P x y \<Longrightarrow> f (f x y) y = f x y"
  shows "map2 f (map2 f xs ys) ys = map2 f xs ys"
  using assms by (induction rule: list_all2_induct) simp_all

lemma map2_keeps_rel:
  assumes "list_all2 P xs ys" and "\<And>x y. P x y \<Longrightarrow> P (f x y) y"
  shows "list_all2 P (map2 f xs ys) ys"
  using assms by (induction rule: list_all2_induct) simp_all

lemma map_length_eq_iff:
  "map length xs = map length ys \<longleftrightarrow> list_all2 (\<lambda>x y. length x = length y) xs ys"
proof -
  have "map length xs = map length ys \<longleftrightarrow> list_all2 (=) (map length xs) (map length ys)"
    by (simp add: list.rel_eq)
  then show ?thesis by (simp add: list_all2_map1 list_all2_map2)
qed

lemma shapes_eq_iff:
  "map (map length) T = map (map length) M \<longleftrightarrow> same_shape3 T M"
proof -
  have "map (map length) T = map (map length) M
      \<longleftrightarrow> list_all2 (=) (map (map length) T) (map (map length) M)"
    by (simp add: list.rel_eq)
  also have "\<dots> \<longleftrightarrow> list_all2 (\<lambda>t m. map length t = map length m) T M"
    by (simp add: list_all2_map1 list_all2_map2)
  finally show ?thesis by (simp add: same_shape3_def map_length_eq_iff)
qed

lemma assign_outside_idem:
  assumes "assign_outside T M v = Inr T'"
  shows "assign_outside T' M v = Inr T'"
proof (cases "M = []")
  case True
  then show ?thesis by (simp add: assign_outside_def)
next
  case False
  let ?f = "\<lambda>t keep. if keep then t else v"
  from assms False have sh: "same_shape3 T M" and T': "T' = map2 (map2 (map2 ?f)) T M"
    by (auto simp: assign_outside_def shapes_eq_iff split: if_splits)
  have row: "map2 ?f (map2 ?f t m) m = map2 ?f t m" if "length t = length m" for t m
    using that by (intro map2_idem [where P = "\<lambda>_ _. True"]) (simp_all add: list_all2_conv_all_nth)
  have slice: "map2 (map2 ?f) (map2 (map2 ?f) s n) n = map2 (map2 ?f) s n"
    if "list_all2 (\<lambda>t m. length t = length m) s n" for s n
    using that by (rule map2_idem) (rule row)
  have idem: "map2 (map2 (map2 ?f)) T' M = T'"
    unfolding T' using sh unfolding same_shape3_def by (rule map2_idem) (rule slice)
  have "list_all2 (\<lambda>t m. length t = length m) (map2 (map2 ?f) s n) n"
    if "list_all2 (\<lambda>t m. length t = length m) s n" for s n
    using that by (rule map2_keeps_rel) simp
  then have "same_shape3 T' M"
    unfolding T' same_shape3_def using sh [unfolded same_shape3_def]
    by (intro map2_keeps_rel [where P = "list_all2 (\<lambda>t m. length t = length m)"]) 
  then show ?thesis using False by (simp add: assign_outside_def shapes_eq_iff idem)
qed

lemma create_roi_mask_twice:
  assumes "create_roi_mask R T roi px v sz = Inr T'"
  shows "create_roi_mask R T' roi px v sz = Inr T'"
proof -
  from assms obtain M where M: "assign_outside T M v = Inr T'"
     and again: "\<And>U. create_roi_mask R U roi px v sz = assign_outside U M v"
    unfolding create_roi_mask_def Let_def bind_r_def
    by (auto split: sum.splits)
  show ?thesis using assign_outside_idem [OF M] by (simp add: again)
qed

text \<open>
  C8. ROI masking is idempotent in value: masking a target, and masking the result again
  with the same reference, radius, pixel size, fill label and buffer size, gives the
  once-masked volume. If the first masking raises, so does the composition, with the same
  exception.
\<close>

theorem create_roi_mask_idempotent:
  "bind_r (create_roi_mask R T roi px v sz) (\<lambda>T'. create_roi_mask R T' roi px v sz)
     = create_roi_mask R T roi px v sz"
proof (cases "create_roi_mask R T roi px v sz")
  case (Inl e)
  then show ?thesis by (simp add: bind_r_def)
next
  case (Inr T')
  then show ?thesis using create_roi_mask_twice [OF Inr] by (simp add: bind_r_def)
qed

theorem create_roi_mask_idempotent_witness:
  "create_roi_mask [[[0, 0, 1, 0, 0, 0]]] [[[5, 5, 5, 5, 5, 5]]] 5 2 0 [1, 6]
     = Inr [[[0, 5, 5, 5, 0, 0]]]
   \<and> create_roi_mask [[[0, 0, 1, 0, 0, 0]]] [[[0, 5, 5, 5, 0, 0]]] 5 2 0 [1, 6]
     = Inr [[[0, 5, 5, 5, 0, 0]]]"
proof -
  have once: "create_roi_mask [[[0, 0, 1, 0, 0, 0]]] [[[5, 5, 5, 5, 5, 5]]] 5 2 0 [1, 6]
     = Inr [[[0, 5, 5, 5, 0, 0]]]"
    by code_simp
  show ?thesis
    using create_roi_mask_idempotent
      [of "[[[0, 0, 1, 0, 0, 0]]]" "[[[5, 5, 5, 5, 5, 5]]]" 5 2 0 "[1, 6]"]
    unfolding once bind_r_def by (simp only: sum.case simp_thms)
qed

subsection \<open>Which voxels the mask keeps\<close>

lemma floor_sqrt_bounds:
  "floor_sqrt n * floor_sqrt n \<le> n \<and> n < (floor_sqrt n + 1) * (floor_sqrt n + 1)"
proof (induction n)
  case 0
  then show ?case by simp
next
  case (Suc n)
  then show ?case by (auto simp: Let_def)
qed

lemma floor_sqrt_less_iff: "floor_sqrt n < m \<longleftrightarrow> n < m * m"
proof
  assume "floor_sqrt n < m"
  then have "floor_sqrt n + 1 \<le> m" by linarith
  then have "(floor_sqrt n + 1) * (floor_sqrt n + 1) \<le> m * m" by (intro mult_le_mono)
  with floor_sqrt_bounds [of n] show "n < m * m" by linarith
next
  assume lt: "n < m * m"
  show "floor_sqrt n < m"
  proof (rule ccontr)
    assume "\<not> floor_sqrt n < m"
    then have "m \<le> floor_sqrt n" by linarith
    then have "m * m \<le> floor_sqrt n * floor_sqrt n" by (intro mult_le_mono)
    with floor_sqrt_bounds [of n] lt show False by linarith
  qed
qed

lemma uint_to_uint16:
  assumes "n < 65536 * 65536"
  shows "uint (to_uint16 n) = int (floor_sqrt n)"
proof -
  have "floor_sqrt n < 65536" using assms by (simp add: floor_sqrt_less_iff)
  then have "unat (word_of_nat (floor_sqrt n) :: 16 word) = floor_sqrt n"
    by (simp add: unat_of_nat)
  then show ?thesis by (simp add: to_uint16_def uint_nat)
qed

lemma sqrt_less_int_iff:
  "sqrt (real n) < real_of_int m \<longleftrightarrow> int (floor_sqrt n) < m"
proof (cases "0 < m")
  case False
  then have "real_of_int m \<le> 0" by simp
  moreover have "0 \<le> sqrt (real n)" by simp
  ultimately have "\<not> sqrt (real n) < real_of_int m" by linarith
  moreover have "\<not> int (floor_sqrt n) < m" using False by linarith
  ultimately show ?thesis by simp
next
  case True
  define k where "k = nat m"
  have m: "m = int k" and k: "0 < k" using True by (simp_all add: k_def)
  have "sqrt (real n) < real k \<longleftrightarrow> real n < (real k)\<^sup>2"
  proof
    assume "sqrt (real n) < real k"
    then have "(sqrt (real n))\<^sup>2 < (real k)\<^sup>2"
      by (intro power_strict_mono) simp_all
    then show "real n < (real k)\<^sup>2" by simp
  next
    assume "real n < (real k)\<^sup>2"
    then show "sqrt (real n) < real k" by (intro real_less_lsqrt) simp_all
  qed
  also have "\<dots> \<longleftrightarrow> n < k * k"
    by (simp add: power2_eq_square flip: of_nat_mult)
  also have "\<dots> \<longleftrightarrow> floor_sqrt n < k" by (simp add: floor_sqrt_less_iff)
  finally show ?thesis by (simp add: m)
qed

lemma euclid_sq_dist: "euclid p q = sqrt (real (sq_dist p q))"
proof -
  have d: "(real a - real b)\<^sup>2 = real ((if a \<le> b then b - a else a - b) * (if a \<le> b then b - a else a - b))"
    for a b :: nat
    by (simp add: power2_eq_square of_nat_diff algebra_simps)
  show ?thesis
    unfolding euclid_def sq_dist_def Let_def d by simp
qed

lemma sq_dist_bound:
  assumes "fst p < Y" "fst q < Y" "snd p < X" "snd q < X" "Y \<le> 32768" "X \<le> 32768"
  shows "sq_dist p q < 65536 * 65536"
proof -
  define dy where "dy = (if fst p \<le> fst q then fst q - fst p else fst p - fst q)"
  define dx where "dx = (if snd p \<le> snd q then snd q - snd p else snd p - snd q)"
  have dy: "dy \<le> 32768" and dx: "dx \<le> 32768" using assms by (auto simp: dy_def dx_def)
  have "dy * dy \<le> 32768 * 32768" using dy by (intro mult_le_mono)
  moreover have "dx * dx \<le> 32768 * 32768" using dx by (intro mult_le_mono)
  ultimately have "dy * dy + dx * dx < 65536 * 65536" by simp
  then show ?thesis unfolding sq_dist_def Let_def dy_def [symmetric] dx_def [symmetric]
    by simp
qed

lemma has_shape2_nth:
  assumes "has_shape2 Y X s"
  shows "length s = Y" and "\<And>y. y < Y \<Longrightarrow> length (s ! y) = X"
  using assms by (auto simp: has_shape2_def list_all_length)

lemma tabulate2:
  assumes "has_shape2 Y X d"
  shows "d = map (\<lambda>y. map (\<lambda>x. d ! y ! x) [0..<X]) [0..<Y]"
proof -
  have "d ! y = map (\<lambda>x. d ! y ! x) [0..<X]" if "y < Y" for y
    using has_shape2_nth [OF assms] that by (intro nth_equalityI) simp_all
  then show ?thesis
    using has_shape2_nth [OF assms] by (intro nth_equalityI) simp_all
qed

lemma broadcast2_same:
  assumes d: "has_shape2 H W d"
  shows "broadcast2 H W d = Inr d"
proof (cases d)
  case Nil
  then show ?thesis using has_shape2_nth(1) [OF d] by (simp add: broadcast2_def shape2_def)
next
  case (Cons r rs)
  then have H: "0 < H" using has_shape2_nth(1) [OF d] by auto
  have "length r = W" using has_shape2_nth(2) [OF d, of 0] H Cons by simp
  then have sh: "shape2 d = (H, W)"
    using has_shape2_nth(1) [OF d] Cons by (simp add: shape2_def)
  have "map (\<lambda>y. map (\<lambda>x. d ! (if H = 1 then 0 else y) ! (if W = 1 then 0 else x)) [0..<W]) [0..<H]
      = map (\<lambda>y. map (\<lambda>x. d ! y ! x) [0..<W]) [0..<H]"
    by (intro map_cong refl) auto
  also have "\<dots> = d" using tabulate2 [OF d] by simp
  finally show ?thesis using H by (simp add: broadcast2_def sh)
qed

lemma set_indices2: "set (indices2 a) = {(y, x). y < length a \<and> x < length (a ! y)}"
  by (auto simp: indices2_def)

lemma set_background_of:
  "set (background_of (map (map Not) (map (map (\<lambda>v. 0 < v)) s))) = positive_voxels s"
  by (auto simp: background_of_def set_indices2 positive_voxels_def)

lemma finite_positive_voxels: "has_shape2 Y X s \<Longrightarrow> finite (positive_voxels s)"
proof -
  assume s: "has_shape2 Y X s"
  have "positive_voxels s \<subseteq> {..<Y} \<times> {..<X}"
    using has_shape2_nth [OF s] by (auto simp: positive_voxels_def)
  then show ?thesis by (rule finite_subset) simp
qed

lemma edt_nth:
  assumes s: "has_shape2 Y X s" and y: "y < Y" and x: "x < X"
    and ne: "positive_voxels s \<noteq> {}"
  shows "distance_transform_edt_sq (map (map Not) (map (map (\<lambda>v. 0 < v)) s)) ! y ! x
       = Min (sq_dist (y, x) ` positive_voxels s)"
proof -
  let ?inp = "map (map Not) (map (map (\<lambda>v. 0 < v)) s)"
  from ne obtain b bs where bg: "background_of ?inp = b # bs"
    using set_background_of [of s] by (cases "background_of ?inp") auto
  have len: "length ?inp = Y" "length (?inp ! y) = X"
    using has_shape2_nth [OF s] y by simp_all
  have "distance_transform_edt_sq ?inp ! y ! x
      = fold min (map (sq_dist (y, x)) bs) (sq_dist (y, x) b)"
    unfolding distance_transform_edt_sq_def Let_def bg using len y x by simp
  also have "\<dots> = Min (set (sq_dist (y, x) b # map (sq_dist (y, x)) bs))"
    by (rule Min.set_eq_fold [symmetric])
  also have "set (sq_dist (y, x) b # map (sq_dist (y, x)) bs) = sq_dist (y, x) ` set (b # bs)"
    by simp
  finally show ?thesis unfolding bg [symmetric] set_background_of .
qed

lemma edt_shape:
  assumes s: "has_shape2 Y X s"
  shows "has_shape2 Y X (distance_transform_edt_sq (map (map Not) (map (map (\<lambda>v. 0 < v)) s)))"
  using has_shape2_nth [OF s]
  by (simp add: distance_transform_edt_sq_def Let_def has_shape2_def list_all_length)

lemma mask_value:
  assumes s: "has_shape2 Y X s" and y: "y < Y" and x: "x < X"
    and ne: "positive_voxels s \<noteq> {}" and small: "Y \<le> 32768" "X \<le> 32768"
  shows "uint (to_uint16 (Min (sq_dist (y, x) ` positive_voxels s))) < m \<longleftrightarrow> in_roi s m y x"
proof -
  let ?S = "positive_voxels s"
  let ?D = "sq_dist (y, x) ` ?S"
  have fin: "finite ?D" and ne': "?D \<noteq> {}"
    using finite_positive_voxels [OF s] ne by simp_all
  have "Min ?D \<in> ?D" using fin ne' by (rule Min_in)
  then obtain q where q: "q \<in> ?S" and min: "Min ?D = sq_dist (y, x) q" by auto
  from q have "fst q < Y" "snd q < X"
    using has_shape2_nth [OF s] by (auto simp: positive_voxels_def)
  then have "Min ?D < 65536 * 65536"
    unfolding min using y x small by (intro sq_dist_bound [of _ Y _ X]) simp_all
  then have "uint (to_uint16 (Min ?D)) = int (floor_sqrt (Min ?D))"
    by (rule uint_to_uint16)
  moreover have "sqrt (real (Min ?D)) = Min ((\<lambda>n. sqrt (real n)) ` ?D)"
    using fin ne' by (intro mono_Min_commute) (simp_all add: mono_def)
  moreover have "(\<lambda>n. sqrt (real n)) ` ?D = euclid (y, x) ` ?S"
    by (simp add: image_image euclid_sq_dist)
  ultimately show ?thesis
    by (simp add: in_roi_def nearest_distance_def sqrt_less_int_iff [symmetric])
qed

lemma slice_roi_mask_shape:
  assumes s: "has_shape2 Y X s"
  shows "has_shape2 Y X (slice_roi_mask m s)"
  using edt_shape [OF s]
  by (simp add: slice_roi_mask_def has_shape2_def list_all_length)

lemma slice_distance_map:
  assumes s: "has_shape2 Y X s"
  shows "broadcast2 Y X (map (map to_uint16)
            (distance_transform_edt_sq (map (map Not) (map (map (\<lambda>v. 0 < v)) s))))
         = Inr (map (map to_uint16)
            (distance_transform_edt_sq (map (map Not) (map (map (\<lambda>v. 0 < v)) s))))"
proof -
  have "has_shape2 Y X (map (map to_uint16)
            (distance_transform_edt_sq (map (map Not) (map (map (\<lambda>v. 0 < v)) s))))"
    using edt_shape [OF s] by (simp add: has_shape2_def list_all_length)
  then show ?thesis by (rule broadcast2_same)
qed

lemma slice_roi_mask_nth:
  assumes s: "has_shape2 Y X s" and ne: "positive_voxels s \<noteq> {}"
    and small: "Y \<le> 32768" "X \<le> 32768" and y: "y < Y" and x: "x < X"
  shows "slice_roi_mask m s ! y ! x \<longleftrightarrow> in_roi s m y x"
proof -
  let ?e = "distance_transform_edt_sq (map (map Not) (map (map (\<lambda>v. 0 < v)) s))"
  have len: "length ?e = Y" "length (?e ! y) = X"
    using has_shape2_nth [OF edt_shape [OF s]] y by simp_all
  have "slice_roi_mask m s ! y ! x \<longleftrightarrow> uint (to_uint16 (?e ! y ! x)) < m"
    unfolding slice_roi_mask_def using len y x by (simp del: map_map)
  also have "\<dots> \<longleftrightarrow> in_roi s m y x"
    unfolding edt_nth [OF s y x ne] by (rule mask_value [OF s y x ne small])
  finally show ?thesis .
qed

lemma roi_mask_loop_value:
  assumes "\<And>s. s \<in> set S \<Longrightarrow> has_shape2 Y X s"
  shows "roi_mask_loop Y X m (map (map (map (\<lambda>v. 0 < v))) S) = Inr (map (slice_roi_mask m) S)"
  using assms
proof (induction S)
  case Nil
  then show ?case by simp
next
  case (Cons s S)
  have s: "has_shape2 Y X s" using Cons.prems by simp
  have rest: "roi_mask_loop Y X m (map (map (map (\<lambda>v. 0 < v))) S)
       = Inr (map (slice_roi_mask m) S)"
    using Cons.prems by (intro Cons.IH) simp
  have "roi_mask_loop Y X m (map (map (\<lambda>v. 0 < v)) s # map (map (map (\<lambda>v. 0 < v))) S)
      = Inr (slice_roi_mask m s # map (slice_roi_mask m) S)"
    by (simp only: roi_mask_loop.simps slice_distance_map [OF s] rest bind_r_def sum.case
        slice_roi_mask_def)
  then show ?case by (simp only: list.map)
qed

lemma create_roi_mask_value:
  assumes R: "has_shape3 Z Y X R" and T: "has_shape3 Z Y X T"
    and q: "float_truediv roi px = Inr q" and m: "py_round q = Inr m"
    and sz: "getitem sz 0 = Inr Y" "getitem sz 1 = Inr X"
    and small: "Y \<le> 32768" "X \<le> 32768"
  shows "\<exists>out. create_roi_mask R T roi px v sz = Inr out \<and> has_shape3 Z Y X out
       \<and> (\<forall>z<Z. positive_voxels (R ! z) \<noteq> {} \<longrightarrow>
            (\<forall>y<Y. \<forall>x<X.
               out ! z ! y ! x = (if in_roi (R ! z) m y x then T ! z ! y ! x else v)))"
proof -
  let ?M = "map (slice_roi_mask m) R"
  let ?f = "\<lambda>t keep. if keep then t else v"
  let ?out = "map2 (map2 (map2 ?f)) T ?M"
  have slices: "has_shape2 Y X s" if "s \<in> set R" for s
    using that R by (auto simp: has_shape3_def list_all_iff)
  have loop: "roi_mask_loop Y X m (map (map (map (\<lambda>v. 0 < v))) R) = Inr ?M"
    using slices by (rule roi_mask_loop_value)
  have lenT: "length T = Z" "\<And>z. z < Z \<Longrightarrow> length (T ! z) = Y"
    "\<And>z y. z < Z \<Longrightarrow> y < Y \<Longrightarrow> length (T ! z ! y) = X"
    using has_shape3_nth [OF T] by simp_all
  have lenR: "length R = Z" using has_shape3_nth [OF R] by simp
  have Mz: "has_shape2 Y X (slice_roi_mask m (R ! z))" if "z < Z" for z
    using that lenR slices by (intro slice_roi_mask_shape) simp
  have lenM: "\<And>z. z < Z \<Longrightarrow> length (slice_roi_mask m (R ! z)) = Y"
    "\<And>z y. z < Z \<Longrightarrow> y < Y \<Longrightarrow> length (slice_roi_mask m (R ! z) ! y) = X"
    using has_shape2_nth [OF Mz] by simp_all
  have shapes: "map (map length) T = map (map length) ?M"
    by (intro nth_equalityI) (simp_all add: lenT lenR lenM)
  have assign: "assign_outside T ?M v = Inr ?out"
  proof (cases "R = []")
    case True
    then have "T = []" using lenT(1) lenR by simp
    then show ?thesis using True by (simp add: assign_outside_def)
  next
    case False
    then show ?thesis by (simp add: assign_outside_def shapes)
  qed
  have run: "create_roi_mask R T roi px v sz = Inr ?out"
    unfolding create_roi_mask_def Let_def
    by (simp add: q m bind_r_def sz [simplified] loop assign)
  have shape_out: "has_shape3 Z Y X ?out"
    by (simp add: has_shape3_def has_shape2_def list_all_length lenT lenR lenM)
  have vals: "?out ! z ! y ! x = (if in_roi (R ! z) m y x then T ! z ! y ! x else v)"
    if "z < Z" "positive_voxels (R ! z) \<noteq> {}" "y < Y" "x < X" for z y x
  proof -
    have "has_shape2 Y X (R ! z)" using that(1) lenR slices by simp
    then have "slice_roi_mask m (R ! z) ! y ! x \<longleftrightarrow> in_roi (R ! z) m y x"
      using that small by (intro slice_roi_mask_nth)
    then show ?thesis using that by (simp add: lenT lenR lenM)
  qed
  show ?thesis using run shape_out vals by blast
qed

text \<open>
  C2, as the code has it. Let the reference and the target have the same shape
  \<open>(Z, Y, X)\<close> with \<open>img_size = [Y, X]\<close> and at most \<open>32768\<close> rows and columns (so that
  every truncated distance fits the \<open>uint16\<close> buffer), and let \<open>round(roi_size / pixel_size)\<close>
  give the integer \<open>m\<close>. Then \<open>create_roi_mask\<close> returns a volume of that shape, and in
  every slice whose reference slice has a voxel with a value above 0, a voxel keeps its
  value if and only if its Euclidean distance, within the slice, to the nearest reference
  voxel with a value above 0 is strictly less than \<open>m\<close>, and is the fill label otherwise.
\<close>

theorem create_roi_mask_keeps_roi:
  assumes "has_shape3 Z Y X R" and "has_shape3 Z Y X T"
    and "float_truediv roi px = Inr q" and "py_round q = Inr m"
    and "Y \<le> 32768" and "X \<le> 32768"
  shows "\<exists>out. create_roi_mask R T roi px v [Y, X] = Inr out \<and> has_shape3 Z Y X out
       \<and> (\<forall>z<Z. positive_voxels (R ! z) \<noteq> {} \<longrightarrow>
            (\<forall>y<Y. \<forall>x<X.
               out ! z ! y ! x = (if in_roi (R ! z) m y x then T ! z ! y ! x else v)))"
  using assms by (intro create_roi_mask_value) (simp_all add: getitem_def)

theorem create_roi_mask_keeps_roi_witness:
  "has_shape3 1 1 6 [[[0, 0, 1, 0, 0, 0 :: int]]] \<and> has_shape3 1 1 6 [[[5, 5, 5, 5, 5, 5 :: int]]]
   \<and> float_truediv 5 2 = Inr (Finite (5 / 2)) \<and> py_round (Finite (5 / 2)) = Inr 2
   \<and> positive_voxels [[0, 0, 1, 0, 0, 0]] \<noteq> {}
   \<and> create_roi_mask [[[0, 0, 1, 0, 0, 0]]] [[[5, 5, 5, 5, 5, 5]]] 5 2 0 [1, 6]
       = Inr [[[0, 5, 5, 5, 0, 0]]]
   \<and> in_roi [[0, 0, 1, 0, 0, 0]] 2 0 1
   \<and> \<not> in_roi [[0, 0, 1, 0, 0, 0]] 2 0 0"
proof -
  let ?R = "[[[0, 0, 1, 0, 0, 0 :: int]]]" and ?T = "[[[5, 5, 5, 5, 5, 5 :: int]]]"
  have R: "has_shape3 1 1 6 ?R" and T: "has_shape3 1 1 6 ?T"
    by (simp_all add: has_shape3_def has_shape2_def)
  have q: "float_truediv 5 2 = Inr (Finite (5 / 2))" by code_simp
  have m: "py_round (Finite (5 / 2)) = Inr 2" by code_simp
  have "(0, 2) \<in> positive_voxels [[0, 0, 1, 0, 0, 0]]"
    by (simp add: positive_voxels_def)
  then have ne: "positive_voxels [[0, 0, 1, 0, 0, 0]] \<noteq> {}" by blast
  have run: "create_roi_mask ?R ?T 5 2 0 [1, 6] = Inr [[[0, 5, 5, 5, 0, 0]]]"
    by code_simp
  from create_roi_mask_keeps_roi [OF R T q m, of 0]
  obtain out where out: "create_roi_mask ?R ?T 5 2 0 [1, 6] = Inr out"
    and vals: "\<forall>z<1. positive_voxels (?R ! z) \<noteq> {} \<longrightarrow> (\<forall>y<1. \<forall>x<6. out ! z ! y ! x
        = (if in_roi (?R ! z) 2 y x then ?T ! z ! y ! x else 0))"
    by auto
  from out run have out_eq: "out = [[[0, 5, 5, 5, 0, 0]]]" by simp
  have v: "\<forall>x<6. [0, 5, 5, 5, 0, 0] ! x
        = (if in_roi [[0, 0, 1, 0, 0, 0]] 2 0 x then [5, 5, 5, 5, 5, 5] ! x else (0 :: int))"
    using vals [rule_format, of 0 0] ne unfolding out_eq by simp
  have "in_roi [[0, 0, 1, 0, 0, 0]] 2 0 1"
    using v [rule_format, of 1] by (simp split: if_splits)
  moreover have "\<not> in_roi [[0, 0, 1, 0, 0, 0]] 2 0 0"
    using v [rule_format, of 0] by (simp split: if_splits)
  ultimately show ?thesis using R T q m ne run by simp
qed

text \<open>
  C2 as the specification words it, for every reference stack and with the distance to the
  nearest \<^emph>\<open>nonzero\<close> reference voxel, fails in two ways. A reference voxel with a negative
  value (an \<^verbatim>\<open>int8\<close> reference holds them) is nonzero but is not above 0: the voxel at
  \<open>(0, 0, 0)\<close> of the first volume lies at distance 0 from a nonzero reference voxel,
  itself, and is overwritten by the fill label all the same. And where a reference slice
  has no nonzero voxel at all, no voxel is near one, yet the voxel of the second volume
  keeps its value: the distance transform has no background element there and measures
  from a position beside the corner of the slice.
\<close>

theorem create_roi_mask_nonzero_counterexample:
  "float_truediv 1 1 = Inr (Finite 1) \<and> py_round (Finite 1) = Inr 1
   \<and> create_roi_mask [[[- 1, 1]]] [[[5, 5]]] 1 1 0 [1, 2] = Inr [[[0, 5]]]
   \<and> nearest_distance (nonzero_voxels [[- 1, 1]]) (0, 0) < 1
   \<and> create_roi_mask [[[0]]] [[[5]]] 2 1 0 [1, 1] = Inr [[[5]]]
   \<and> nonzero_voxels [[0]] = {}"
proof (intro conjI)
  show "float_truediv 1 1 = Inr (Finite 1)" by code_simp
  show "py_round (Finite 1) = Inr 1" by code_simp
  show "create_roi_mask [[[- 1, 1]]] [[[5, 5]]] 1 1 0 [1, 2] = Inr [[[0, 5]]]"
    by code_simp
  have sub: "nonzero_voxels [[- 1, 1]] \<subseteq> {..<1} \<times> {..<2}"
    by (auto simp: nonzero_voxels_def)
  have fin: "finite (nonzero_voxels [[- 1, 1]])"
    by (rule finite_subset [OF sub]) simp
  have mem: "(0, 0) \<in> nonzero_voxels [[- 1, 1]]"
    by (simp add: nonzero_voxels_def)
  have "Min (euclid (0, 0) ` nonzero_voxels [[- 1, 1]]) \<le> euclid (0, 0) (0, 0)"
    using fin mem by (intro Min_le) auto
  also have "euclid (0, 0) (0, 0) = 0" by (simp add: euclid_def)
  finally show "nearest_distance (nonzero_voxels [[- 1, 1]]) (0, 0) < 1"
    by (simp add: nearest_distance_def)
  show "create_roi_mask [[[0]]] [[[5]]] 2 1 0 [1, 1] = Inr [[[5]]]"
    by code_simp
  have "False" if "y < length [[0 :: int]]" "x < length ([[0 :: int]] ! y)"
    "[[0 :: int]] ! y ! x \<noteq> 0" for y x
  proof -
    from that(1) have y: "y = 0" by simp
    with that(2) have "x = 0" by simp
    with y that(3) show False by simp
  qed
  then show "nonzero_voxels [[0]] = {}"
    unfolding nonzero_voxels_def by blast
qed

section \<open>Reading the histogram\<close>

lemma histogram_Inr:
  assumes "histogram flat = Inr (hist, centers)"
  shows "flat \<noteq> []" and "centers = [Min (set flat)..Max (set flat)]"
    and "hist = map (count_list flat) centers"
proof -
  from assms obtain v vs where flat: "flat = v # vs"
    by (cases flat) (simp_all add: histogram_def)
  have mn: "fold min vs v = Min (set (v # vs))" by (rule Min.set_eq_fold [symmetric])
  have mx: "fold max vs v = Max (set (v # vs))" by (rule Max.set_eq_fold [symmetric])
  from assms have c: "centers = [fold min vs v..fold max vs v]"
    and h: "hist = map (count_list flat) centers"
    by (auto simp add: histogram_def Let_def flat)
  show "flat \<noteq> []" by (simp add: flat)
  show "centers = [Min (set flat)..Max (set flat)]" using c unfolding mn mx flat .
  show "hist = map (count_list flat) centers" by (rule h)
qed

lemma where_lookup:
  "(case np_where_eq centers l of [] \<Rightarrow> Inl IndexError
      | j # _ \<Rightarrow> Inr (map f centers ! j))
   = (if l \<in> set centers then Inr (f l) else Inl IndexError)"
proof (cases "np_where_eq centers l")
  case Nil
  then have "l \<notin> set centers"
    by (auto simp: np_where_eq_def filter_empty_conv in_set_conv_nth)
  then show ?thesis using Nil by simp
next
  case (Cons j js)
  then have "j \<in> set (np_where_eq centers l)" by simp
  then have j: "j < length centers" "centers ! j = l" by (auto simp: np_where_eq_def)
  then have "l \<in> set centers" by auto
  then show ?thesis using Cons j by simp
qed

lemma count_voxels_per_label_value:
  assumes "ravel3 V \<noteq> []"
  shows "count_voxels_per_label V l =
     (if Min (set (ravel3 V)) \<le> l \<and> l \<le> Max (set (ravel3 V))
      then Inr (label_count V l) else Inl IndexError)"
proof -
  from assms obtain hist centers where h: "histogram (ravel3 V) = Inr (hist, centers)"
    using histogram_nonempty by fastforce
  note facts = histogram_Inr [OF h]
  have "count_voxels_per_label V l =
      (case np_where_eq centers l of [] \<Rightarrow> Inl IndexError
        | j # _ \<Rightarrow> Inr (map (count_list (ravel3 V)) centers ! j))"
    by (simp add: count_voxels_per_label_def h bind_r_def Let_def facts(3) [symmetric]
        split: list.splits)
  also have "\<dots> = (if l \<in> set centers then Inr (count_list (ravel3 V) l) else Inl IndexError)"
    by (rule where_lookup)
  finally show ?thesis by (simp add: facts(2) label_count_def)
qed

lemma np_getitem_histogram:
  assumes h: "histogram flat = Inr (hist, centers)" and mn: "Min (set flat) = 0" and l: "0 \<le> l"
  shows "np_getitem hist l =
     (if l \<le> Max (set flat) then Inr (count_list flat l) else Inl IndexError)"
proof -
  note facts = histogram_Inr [OF h]
  have c: "centers = [0..Max (set flat)]" using facts(2) mn by simp
  have "Min (set flat) \<le> Max (set flat)"
    using facts(1) by (intro Min.coboundedI) simp_all
  then have "0 \<le> Max (set flat)" using mn by simp
  then have len: "int (length hist) = Max (set flat) + 1"
    by (simp add: facts(3) c)
  show ?thesis
  proof (cases "l \<le> Max (set flat)")
    case True
    have "[0..Max (set flat)] ! nat l = 0 + int (nat l)"
      using True l by (intro nth_upto) simp
    then have "hist ! nat l = count_list flat l"
      using True l len by (simp add: facts(3) c)
    then show ?thesis using True l len by (simp add: np_getitem_def Let_def)
  next
    case False
    then show ?thesis using l len by (simp add: np_getitem_def Let_def)
  qed
qed

section \<open>Labels that do not occur\<close>

text \<open>The label check of the contact counters fails exactly for a label outside the range of
  the voxel values.\<close>

lemma contact_area_raises_iff:
  assumes "ravel3 V \<noteq> []"
  shows "contact_area V a b = Inl ValueError \<longleftrightarrow>
     \<not> (Min (set (ravel3 V)) \<le> a \<and> a \<le> Max (set (ravel3 V))
        \<and> Min (set (ravel3 V)) \<le> b \<and> b \<le> Max (set (ravel3 V)))"
proof -
  from assms obtain hist centers where h: "histogram (ravel3 V) = Inr (hist, centers)"
    using histogram_nonempty by fastforce
  have c: "set centers = {Min (set (ravel3 V))..Max (set (ravel3 V))}"
    using histogram_Inr(2) [OF h] by simp
  show ?thesis
    unfolding contact_area_def Let_def by (auto simp: h bind_r_def c)
qed

lemma contact_area_layer_raises_iff:
  assumes "ravel2 S \<noteq> []"
  shows "contact_area_layer S a b = Inl ValueError \<longleftrightarrow>
     \<not> (Min (set (ravel2 S)) \<le> a \<and> a \<le> Max (set (ravel2 S))
        \<and> Min (set (ravel2 S)) \<le> b \<and> b \<le> Max (set (ravel2 S)))"
proof -
  from assms obtain hist centers where h: "histogram (ravel2 S) = Inr (hist, centers)"
    using histogram_nonempty by fastforce
  have c: "set centers = {Min (set (ravel2 S))..Max (set (ravel2 S))}"
    using histogram_Inr(2) [OF h] by simp
  show ?thesis
    unfolding contact_area_layer_def Let_def by (auto simp: h bind_r_def c)
qed

text \<open>
  C4. The specification states that for a label that occurs nowhere in the volume
  \<open>count_voxels_per_label\<close> returns 0 and does not fail. The code looks the label up among the bin centres of the
  histogram, which run from the smallest to the largest voxel value: a label between them
  that does not occur has an empty bin and the count is 0, a label outside them has no bin
  and the lookup \<^verbatim>\<open>np.where(...)[0][0]\<close> raises \<^verbatim>\<open>IndexError\<close>. Both cases, evaluated:
\<close>

theorem count_voxels_absent_label:
  "count_voxels_per_label [[[1]]] 0 = Inl IndexError
   \<and> count_voxels_per_label [[[0, 2]]] 1 = Inr 0"
  by code_simp

text \<open>
  C7. The specification states that the contact counters raise if and only if one of the
  two labels is absent from the values observed in the volume. The check \<^verbatim>\<open>label not in histogram[1]\<close>
  tests the bin centres, so a label that does not occur but lies between the smallest and
  the largest voxel value passes it: label 1 in a volume holding only 0 and 2 raises
  nothing, and the contact is reported as 0.
\<close>

theorem contact_area_unobserved_label:
  "contact_area [[[0, 2]]] 1 0 = Inr 0 \<and> contact_area_layer [[0, 2]] 1 0 = Inr 0
   \<and> 1 \<notin> set (ravel3 [[[0, 2 :: int]]])"
  by code_simp

theorem contact_area_unobserved_label_witness:
  "contact_area [[[0, 2]]] 1 0 \<noteq> Inl ValueError
   \<and> contact_area_layer [[0, 2]] 1 0 \<noteq> Inl ValueError"
  using contact_area_unobserved_label by simp

section \<open>The queries of \<^verbatim>\<open>Sample\<close>\<close>

subsection \<open>The target volume after a BV/TV query\<close>

text \<open>
  A second call with the same radius returns what the first returned and leaves the
  object as the first left it.
\<close>

lemma bvtv_second_call:
  "get_bone_volume_to_total_volume (snd (get_bone_volume_to_total_volume self roi)) roi
     = get_bone_volume_to_total_volume self roi"
proof (cases "dict_get (label_dict self) ''screw''")
  case (Inl e)
  then show ?thesis by (simp add: get_bone_volume_to_total_volume_def)
next
  case (Inr l_screw)
  show ?thesis
  proof (cases "create_roi_mask (ref_image self) (target_image self) roi
                  (sample_pixel_size self) l_screw (sample_img_size self)")
    case (Inl e)
    then show ?thesis using Inr by (simp add: get_bone_volume_to_total_volume_def)
  next
    case masked: (Inr masked_stack)
    have "create_roi_mask (ref_image self) masked_stack roi
            (sample_pixel_size self) l_screw (sample_img_size self) = Inr masked_stack"
      by (rule create_roi_mask_twice [OF masked])
    then show ?thesis using Inr masked
      by (simp add: get_bone_volume_to_total_volume_def)
  qed
qed

text \<open>
  C3. The specification states that no query changes the volumes the sample owns. The
  BV/TV query passes
  \<^verbatim>\<open>self.target_image\<close> itself to \<^verbatim>\<open>create_roi_mask\<close>, which overwrites the voxels
  outside the region of interest in place with the screw label: after the call the target
  of \<open>sample_row\<close> has a screw voxel it did not have, and the residual voxel count read
  from it changes from 0 to 1.
\<close>

theorem bvtv_overwrites_target:
  "target_image sample_row = [[[3, 0, 0]]]
   \<and> fst (get_bone_volume_to_total_volume sample_row 1) = Inr (Finite (1 / 2))
   \<and> target_image (snd (get_bone_volume_to_total_volume sample_row 1)) = [[[3, 0, 1]]]
   \<and> residual_voxels sample_row = Inr 0
   \<and> residual_voxels (snd (get_bone_volume_to_total_volume sample_row 1)) = Inr 1"
  by code_simp

subsection \<open>Zero denominators\<close>

text \<open>
  C5 as the specification words it, that a zero denominator raises an error in both ratio
  queries, fails for the BV/TV query: in \<open>sample_no_bone\<close>
  the masked target has neither a bone nor a background voxel, the region of interest
  counts zero voxels, and the query returns NaN without raising.
\<close>

theorem bvtv_zero_roi_counterexample:
  "fst (get_bone_volume_to_total_volume sample_no_bone 1) = Inr NaN
   \<and> target_image (snd (get_bone_volume_to_total_volume sample_no_bone 1)) = [[[0, 3]]]
   \<and> label_count [[[0, 3]]] 2 + label_count [[[0, 3]]] 1 = 0"
  by code_simp

text \<open>
  C5, as the code has it. Neither ratio query checks its denominator. The BIC query
  divides the two contact counts as \<^verbatim>\<open>np.count_nonzero\<close> gives them: when the contact of
  screw and background is zero it raises \<^verbatim>\<open>ZeroDivisionError\<close> where the counts are
  Python integers, and returns infinity, or NaN when the contact of screw and bone is zero
  as well, where they are NumPy scalars. The BV/TV query divides two NumPy integers: when
  the two bins it reads are both empty it returns NaN.
\<close>

theorem zero_denominators:
  "(get_BIC_images self True = Inr (screw, screw_bone)
        \<and> label_dict self ''screw'' = Some l_screw \<and> label_dict self ''bone'' = Some l_bone
        \<and> label_dict self ''background'' = Some l_background
        \<and> contact_area screw_bone l_screw l_bone = Inr n
        \<and> contact_area screw l_screw l_background = Inr 0
      \<longrightarrow> get_bone_to_implant_contact scalar_counts self =
            (if scalar_counts then Inr (if n = 0 then NaN else PosInf)
             else Inl ZeroDivisionError))
   \<and> (label_dict self ''screw'' = Some l_screw \<and> label_dict self ''bone'' = Some l_bone
        \<and> label_dict self ''background'' = Some l_background
        \<and> create_roi_mask (ref_image self) (target_image self) roi (sample_pixel_size self)
              l_screw (sample_img_size self) = Inr masked
        \<and> histogram (ravel3 masked) = Inr (hist, centers)
        \<and> np_getitem hist l_bone = Inr 0 \<and> np_getitem hist l_background = Inr 0
      \<longrightarrow> fst (get_bone_volume_to_total_volume self roi) = Inr NaN)"
proof (intro conjI impI)
  assume "get_BIC_images self True = Inr (screw, screw_bone)
        \<and> label_dict self ''screw'' = Some l_screw \<and> label_dict self ''bone'' = Some l_bone
        \<and> label_dict self ''background'' = Some l_background
        \<and> contact_area screw_bone l_screw l_bone = Inr n
        \<and> contact_area screw l_screw l_background = Inr 0"
  then show "get_bone_to_implant_contact scalar_counts self =
            (if scalar_counts then Inr (if n = 0 then NaN else PosInf)
             else Inl ZeroDivisionError)"
    by (simp add: get_bone_to_implant_contact_def bind_r_def dict_get_def count_truediv_def
        int_truediv_def np_true_divide_def)
next
  assume "label_dict self ''screw'' = Some l_screw \<and> label_dict self ''bone'' = Some l_bone
        \<and> label_dict self ''background'' = Some l_background
        \<and> create_roi_mask (ref_image self) (target_image self) roi (sample_pixel_size self)
              l_screw (sample_img_size self) = Inr masked
        \<and> histogram (ravel3 masked) = Inr (hist, centers)
        \<and> np_getitem hist l_bone = Inr 0 \<and> np_getitem hist l_background = Inr 0"
  then show "fst (get_bone_volume_to_total_volume self roi) = Inr NaN"
    by (simp add: get_bone_volume_to_total_volume_def bind_r_def dict_get_def
        np_true_divide_def)
qed

theorem zero_denominators_witness:
  "get_BIC_images sample_no_contact True = Inr ([[[1, 0, 2]]], [[[1, 3, 2]]])
   \<and> contact_area [[[1, 3, 2]]] 1 3 = Inr 1
   \<and> contact_area [[[1, 0, 2]]] 1 2 = Inr 0
   \<and> get_bone_to_implant_contact False sample_no_contact = Inl ZeroDivisionError
   \<and> get_bone_to_implant_contact True sample_no_contact = Inr PosInf
   \<and> create_roi_mask (ref_image sample_no_bone) (target_image sample_no_bone) 1
        (sample_pixel_size sample_no_bone) 0 (sample_img_size sample_no_bone) = Inr [[[0, 3]]]
   \<and> histogram (ravel3 [[[0, 3]]]) = Inr ([1, 0, 0, 1], [0, 1, 2, 3])
   \<and> np_getitem [1, 0, 0, 1 :: nat] 2 = Inr 0 \<and> np_getitem [1, 0, 0, 1 :: nat] 1 = Inr 0
   \<and> fst (get_bone_volume_to_total_volume sample_no_bone 1) = Inr NaN"
proof -
  have d1: "label_dict sample_no_contact ''screw'' = Some 1"
    "label_dict sample_no_contact ''bone'' = Some 3"
    "label_dict sample_no_contact ''background'' = Some 2"
    by (simp_all add: sample_no_contact_def)
  have d2: "label_dict sample_no_bone ''screw'' = Some 0"
    "label_dict sample_no_bone ''bone'' = Some 2"
    "label_dict sample_no_bone ''background'' = Some 1"
    by (simp_all add: sample_no_bone_def)
  have imgs: "get_BIC_images sample_no_contact True = Inr ([[[1, 0, 2]]], [[[1, 3, 2]]])"
    by code_simp
  have c1: "contact_area [[[1, 3, 2]]] 1 3 = Inr 1" by code_simp
  have c2: "contact_area [[[1, 0, 2]]] 1 2 = Inr 0" by code_simp
  have m: "create_roi_mask (ref_image sample_no_bone) (target_image sample_no_bone) 1
        (sample_pixel_size sample_no_bone) 0 (sample_img_size sample_no_bone) = Inr [[[0, 3]]]"
    by code_simp
  have h: "histogram (ravel3 [[[0, 3]]]) = Inr ([1, 0, 0, 1], [0, 1, 2, 3])" by code_simp
  have g: "np_getitem [1, 0, 0, 1 :: nat] 2 = Inr 0" "np_getitem [1, 0, 0, 1 :: nat] 1 = Inr 0"
    by code_simp+
  have bic_int: "get_bone_to_implant_contact False sample_no_contact = Inl ZeroDivisionError"
    using zero_denominators
      [of sample_no_contact "[[[1, 0, 2]]]" "[[[1, 3, 2]]]" 1 3 2 1 False]
      d1 imgs c1 c2 by simp
  have bic_np: "get_bone_to_implant_contact True sample_no_contact = Inr PosInf"
    using zero_denominators
      [of sample_no_contact "[[[1, 0, 2]]]" "[[[1, 3, 2]]]" 1 3 2 1 True]
      d1 imgs c1 c2 by simp
  have bvtv: "fst (get_bone_volume_to_total_volume sample_no_bone 1) = Inr NaN"
    using zero_denominators
      [of sample_no_bone _ _ 0 2 1 _ _ 1 "[[[0, 3]]]" "[1, 0, 0, 1]" "[0, 1, 2, 3]"]
      d2 m h g by simp
  show ?thesis using imgs c1 c2 m h g bic_int bic_np bvtv by simp
qed

subsection \<open>Positional lookup in the BV/TV query\<close>

text \<open>
  When the masked target is not empty, its smallest voxel value is 0 and the codes of bone
  and background are not negative, bin \<open>i\<close> of the histogram is the bin of label \<open>i\<close>: the
  query divides the bone count by the sum of the bone and background counts. It does so
  only if both codes are at most the largest voxel value; a larger code has no bin.
\<close>

lemma bvtv_min_zero:
  assumes d: "label_dict self ''screw'' = Some l_screw" "label_dict self ''bone'' = Some l_bone"
      "label_dict self ''background'' = Some l_background"
    and m: "create_roi_mask (ref_image self) (target_image self) roi (sample_pixel_size self)
              l_screw (sample_img_size self) = Inr masked"
    and ne: "ravel3 masked \<noteq> []" and mn: "Min (set (ravel3 masked)) = 0"
    and nonneg: "0 \<le> l_bone" "0 \<le> l_background"
  shows "fst (get_bone_volume_to_total_volume self roi) =
     (if l_bone \<le> Max (set (ravel3 masked)) \<and> l_background \<le> Max (set (ravel3 masked))
      then Inr (np_true_divide (label_count masked l_bone)
                  (label_count masked l_bone + label_count masked l_background))
      else Inl IndexError)"
proof -
  from ne obtain hist centers where h: "histogram (ravel3 masked) = Inr (hist, centers)"
    using histogram_nonempty by fastforce
  have b: "np_getitem hist l_bone =
     (if l_bone \<le> Max (set (ravel3 masked)) then Inr (label_count masked l_bone)
      else Inl IndexError)"
    unfolding label_count_def by (rule np_getitem_histogram [OF h mn nonneg(1)])
  have g: "np_getitem hist l_background =
     (if l_background \<le> Max (set (ravel3 masked)) then Inr (label_count masked l_background)
      else Inl IndexError)"
    unfolding label_count_def by (rule np_getitem_histogram [OF h mn nonneg(2)])
  show ?thesis
    by (simp add: get_bone_volume_to_total_volume_def dict_get_def d m h bind_r_def b g)
qed

lemma np_true_divide_ratio:
  assumes "0 < label_count masked l_bone + label_count masked l_background"
  shows "np_true_divide (label_count masked l_bone)
           (label_count masked l_bone + label_count masked l_background)
         = to_binary64 (bv_tv_ratio masked l_bone l_background)"
  using assms by (auto simp: np_true_divide_def bv_tv_ratio_def)

text \<open>
  When the smallest voxel value is not 0 the lookup reads other labels' bins: the masked
  target of \<open>sample_offset\<close> has smallest value 1, the query returns \<open>1 / 2\<close>, and the ratio
  of the counts is 1.
\<close>

lemma bvtv_offset_example:
  "target_image (snd (get_bone_volume_to_total_volume sample_offset 1)) = [[[1, 2, 2, 3]]]
   \<and> Min (set (ravel3 [[[1, 2, 2, 3 :: int]]])) = 1
   \<and> fst (get_bone_volume_to_total_volume sample_offset 1) = Inr (Finite (1 / 2))
   \<and> bv_tv_ratio [[[1, 2, 2, 3]]] 2 0 = 1"
proof (intro conjI)
  show "target_image (snd (get_bone_volume_to_total_volume sample_offset 1)) = [[[1, 2, 2, 3]]]"
    by code_simp
  show "Min (set (ravel3 [[[1, 2, 2, 3 :: int]]])) = 1"
    by (simp add: ravel3_def)
  show "fst (get_bone_volume_to_total_volume sample_offset 1) = Inr (Finite (1 / 2))"
    by code_simp
  show "bv_tv_ratio [[[1, 2, 2, 3]]] 2 0 = 1"
    by code_simp
qed

text \<open>
  C9. The specification states that for every masked target whose smallest voxel value is
  0 the BV/TV query returns the bone count divided by the sum of the bone and background
  counts. The query indexes the count array of the histogram with the label codes, and
  the array ends at the largest voxel value: in \<open>sample_bone_absent\<close> the masked target
  \<open>[[[0, 1, 1]]]\<close> has smallest value 0 and no bone voxel, the bone code 3 is beyond its
  largest value, and the query raises \<^verbatim>\<open>IndexError\<close> where the ratio of the counts is 0.
\<close>

theorem bvtv_absent_bone_label:
  "target_image (snd (get_bone_volume_to_total_volume sample_bone_absent 1)) = [[[0, 1, 1]]]
   \<and> Min (set (ravel3 [[[0, 1, 1 :: int]]])) = 0
   \<and> label_count [[[0, 1, 1]]] 3 = 0 \<and> label_count [[[0, 1, 1]]] 0 = 1
   \<and> bv_tv_ratio [[[0, 1, 1]]] 3 0 = 0
   \<and> fst (get_bone_volume_to_total_volume sample_bone_absent 1) = Inl IndexError"
proof (intro conjI)
  show "target_image (snd (get_bone_volume_to_total_volume sample_bone_absent 1))
      = [[[0, 1, 1]]]"
    by code_simp
  show "Min (set (ravel3 [[[0, 1, 1 :: int]]])) = 0"
    by (simp add: ravel3_def)
  show "label_count [[[0, 1, 1]]] 3 = 0" by code_simp
  show "label_count [[[0, 1, 1]]] 0 = 1" by code_simp
  show "bv_tv_ratio [[[0, 1, 1]]] 3 0 = 0" by code_simp
  show "fst (get_bone_volume_to_total_volume sample_bone_absent 1) = Inl IndexError"
    by code_simp
qed

section \<open>Symmetry of the contact counters\<close>

text \<open>
  C6. Contact counting is symmetric in its two label arguments, for the 3D counter and for
  the 2D layer counter: exchanging the labels exchanges \<^verbatim>\<open>x_contact_1\<close> with
  \<^verbatim>\<open>x_contact_2\<close> (and likewise along the other axes) and leaves the label check as it
  is, so the result, count or exception, is the same.
\<close>

theorem contact_symmetric:
  "contact_area V a b = contact_area V b a
   \<and> contact_area_layer S a b = contact_area_layer S b a"
proof
  show "contact_area V a b = contact_area V b a"
    unfolding contact_area_def Let_def
    by (cases "histogram (ravel3 V)") (auto simp: bind_r_def)
  show "contact_area_layer S a b = contact_area_layer S b a"
    unfolding contact_area_layer_def Let_def
    by (cases "histogram (ravel2 S)") (auto simp: bind_r_def)
qed

theorem contact_symmetric_witness:
  "contact_area [[[0, 1], [1, 1]]] 1 0 = Inr 2 \<and> contact_area_layer [[0, 1], [1, 1]] 1 0 = Inr 2"
proof -
  have "contact_area [[[0, 1], [1, 1]]] 0 1 = Inr 2" by code_simp
  moreover have "contact_area_layer [[0, 1], [1, 1]] 0 1 = Inr 2" by code_simp
  ultimately show ?thesis
    using contact_symmetric [of "[[[0, 1], [1, 1]]]" 0 1 "[[0, 1], [1, 1]]"]
    by simp
qed

end
